theory Spec2Isabelle
  imports Main "HOL-Library.Sublist"
begin

section \<open>Constants of server.js\<close>

definition MAX_RESOURCES :: nat where
  "MAX_RESOURCES = 200"

definition TIMEOUT :: nat where
  "TIMEOUT = 20000"

definition CSS_FETCH_TIMEOUT :: nat where
  "CSS_FETCH_TIMEOUT = 8000"

definition CONCURRENCY :: nat where
  "CONCURRENCY = 8"

section \<open>JavaScript strings\<close>

text \<open>
  A JavaScript string is modelled as a \<open>string\<close> whose characters stand for code units
  below 256. \<open>undefined\<close> and \<open>null\<close> are \<open>None\<close> of an option type.
\<close>

definition is_space :: "char \<Rightarrow> bool" where
  \<comment> \<open>the class \<open>\s\<close> and the characters \<open>trim\<close> strips, among code units below 256\<close>
  "is_space c = ((of_char c :: nat) \<in> {9, 10, 11, 12, 13, 32, 160})"

definition is_digit :: "char \<Rightarrow> bool" where
  "is_digit c = (48 \<le> (of_char c :: nat) \<and> (of_char c :: nat) \<le> 57)"

definition lower_char :: "char \<Rightarrow> char" where
  "lower_char c =
     (let n = (of_char c :: nat)
      in if (65 \<le> n \<and> n \<le> 90) \<or> (192 \<le> n \<and> n \<le> 222 \<and> n \<noteq> 215)
         then char_of (n + 32) else c)"

definition toLowerCase :: "string \<Rightarrow> string" where
  "toLowerCase s = map lower_char s"

definition startsWith :: "string \<Rightarrow> string \<Rightarrow> bool" where
  "startsWith s p = (take (length p) s = p)"

definition endsWith :: "string \<Rightarrow> string \<Rightarrow> bool" where
  "endsWith s p = (length p \<le> length s \<and> drop (length s - length p) s = p)"

definition array_includes :: "'a list \<Rightarrow> 'a \<Rightarrow> bool" where
  "array_includes xs x = list_ex (\<lambda>y. y = x) xs"

definition trim :: "string \<Rightarrow> string" where
  "trim s = rev (dropWhile is_space (rev (dropWhile is_space s)))"

definition truthy :: "string option \<Rightarrow> bool" where
  \<comment> \<open>a string-or-undefined value in a condition: \<open>undefined\<close>, \<open>null\<close> and \<open>''\<close> are falsy\<close>
  "truthy v = (case v of None \<Rightarrow> False | Some s \<Rightarrow> s \<noteq> [])"

definition js_or :: "string option \<Rightarrow> string option \<Rightarrow> string option" where
  \<comment> \<open>\<open>a || b\<close>\<close>
  "js_or a b = (if truthy a then a else b)"

definition to_USVString :: "string option \<Rightarrow> string" where
  \<comment> \<open>the string conversion a \<open>URL\<close> constructor argument goes through\<close>
  "to_USVString v = (case v of None \<Rightarrow> ''undefined'' | Some s \<Rightarrow> s)"

section \<open>The platform: URL parser, network, clock, HTML parser\<close>

record url_obj =
  protocol :: string
  hostname :: string
  href :: string

record js_error =
  message :: string
  as_string :: string

definition err_text :: "js_error \<Rightarrow> string" where
  \<comment> \<open>\<open>String(err.message || err)\<close>\<close>
  "err_text e = (if message e \<noteq> [] then message e else as_string e)"

datatype http_method = HEAD | GET

datatype event =
  Fetch http_method string nat
| ReadBody string

record response =
  r_status :: nat
  r_ok :: bool
  r_headers :: "(string \<times> string) list"
  r_body :: "js_error + string"

definition headers_get :: "response \<Rightarrow> string \<Rightarrow> string option" where
  "headers_get res name = map_of (r_headers res) name"

record element =
  attrs :: "(string \<times> string) list"
  inner_html :: "string option"

definition attr :: "element \<Rightarrow> string \<Rightarrow> string option" where
  "attr el name = map_of (attrs el) name"

text \<open>The elements each selector of the handler returns, in document order.\<close>

record page =
  q_script_src :: "element list"
  q_img :: "element list"
  q_link_stylesheet :: "element list"
  q_link_preload_href :: "element list"
  q_iframe :: "element list"
  q_media :: "element list"
  q_style_attr :: "element list"
  q_style :: "element list"

text \<open>
  The platform is a parameter of every function: \<open>newURL env input base\<close> is
  \<open>new URL(input, base)\<close> (\<open>None\<close> when the constructor throws), \<open>net env log m u t\<close>
  is what \<open>fetch\<close> of \<open>u\<close> with method \<open>m\<close> and abort timer \<open>t\<close> settles to after the
  events \<open>log\<close>, \<open>now env log\<close> is \<open>Date.now()\<close> after the events \<open>log\<close>, and
  \<open>load env html\<close> is the parsed document. Where several probes wait for the network
  at once, \<open>sched env log pending\<close> says which of the waiting probes is the next to go
  on after the events \<open>log\<close>: the probe at place
  \<open>sched env log pending mod length pending\<close> of the list \<open>pending\<close>.
\<close>

record env =
  newURL :: "string \<Rightarrow> string option \<Rightarrow> url_obj option"
  net :: "event list \<Rightarrow> http_method \<Rightarrow> string \<Rightarrow> nat \<Rightarrow> js_error + response"
  now :: "event list \<Rightarrow> int"
  load :: "string \<Rightarrow> page"
  sched :: "event list \<Rightarrow> nat list \<Rightarrow> nat"

section \<open>isBlockedUrl and absoluteUrl\<close>

definition private_re_test :: "string \<Rightarrow> bool" where
  \<comment> \<open>\<open>/^(10\.|127\.|192\.168\.|169\.254\.)/.test(host)\<close>\<close>
  "private_re_test host =
     list_ex (startsWith host) [''10.'', ''127.'', ''192.168.'', ''169.254.'']"

definition isBlockedUrl :: "env \<Rightarrow> string \<Rightarrow> bool" where
  "isBlockedUrl env u =
     (case newURL env u None of
        None \<Rightarrow> True
      | Some url \<Rightarrow>
          if \<not> array_includes [''http:'', ''https:''] (protocol url) then True
          else
            let host = toLowerCase (hostname url)
            in if host = ''localhost'' \<or> host = ''127.0.0.1'' \<or> host = ''::1'' then True
               else if endsWith host ''.local'' then True
               else if private_re_test host then True
               else False)"

definition absoluteUrl :: "env \<Rightarrow> string \<Rightarrow> string option \<Rightarrow> string option" where
  "absoluteUrl env base relative =
     (case newURL env (to_USVString relative) (Some base) of
        None \<Rightarrow> None
      | Some url \<Rightarrow> Some (href url))"

section \<open>findCssUrls\<close>

text \<open>
  The regular expression \<open>/url\(\s*['"]?([^'")]+)['"]?\s*\)/g\<close> is matched as a
  backtracking matcher does: every quantifier first takes as much as it can and gives
  back one character at a time while the rest of the pattern fails. Each matcher returns
  the number of characters it consumed.
\<close>

definition is_quote :: "char \<Rightarrow> bool" where
  "is_quote c = (c = CHR 0x27 \<or> c = CHR 0x22)"

definition in_group :: "char \<Rightarrow> bool" where
  \<comment> \<open>the class \<open>[^'")]\<close>\<close>
  "in_group c = (\<not> is_quote c \<and> c \<noteq> CHR 0x29)"

definition close_paren :: "string \<Rightarrow> nat option" where
  \<comment> \<open>\<open>\s*\)\<close>: a closing parenthesis is no white space, so only the longest run can work\<close>
  "close_paren b =
     (let ws = takeWhile is_space b
      in case drop (length ws) b of
           [] \<Rightarrow> None
         | c # _ \<Rightarrow> if c = CHR 0x29 then Some (Suc (length ws)) else None)"

definition css_tail :: "string \<Rightarrow> nat option" where
  \<comment> \<open>\<open>['"]?\s*\)\<close>\<close>
  "css_tail a =
     (case a of
        [] \<Rightarrow> None
      | c # a' \<Rightarrow>
          if is_quote c then
            (case close_paren a' of Some n \<Rightarrow> Some (Suc n) | None \<Rightarrow> close_paren a)
          else close_paren a)"

fun try_group :: "string \<Rightarrow> nat \<Rightarrow> (string \<times> nat) option" where
  "try_group t 0 = None"
| "try_group t (Suc j) =
     (case css_tail (drop (Suc j) t) of
        Some n \<Rightarrow> Some (take (Suc j) t, Suc j + n)
      | None \<Rightarrow> try_group t j)"

definition css_group :: "string \<Rightarrow> (string \<times> nat) option" where
  \<comment> \<open>\<open>([^'")]+)['"]?\s*\)\<close>\<close>
  "css_group t = try_group t (length (takeWhile in_group t))"

definition css_quote_group :: "string \<Rightarrow> (string \<times> nat) option" where
  \<comment> \<open>\<open>['"]?([^'")]+)['"]?\s*\)\<close>\<close>
  "css_quote_group s =
     (case s of
        [] \<Rightarrow> None
      | c # r \<Rightarrow>
          if is_quote c then
            (case css_group r of Some (cap, n) \<Rightarrow> Some (cap, Suc n) | None \<Rightarrow> css_group s)
          else css_group s)"

fun try_open :: "string \<Rightarrow> nat \<Rightarrow> (string \<times> nat) option" where
  "try_open s 0 = css_quote_group s"
| "try_open s (Suc k) =
     (case css_quote_group (drop (Suc k) s) of
        Some (cap, n) \<Rightarrow> Some (cap, Suc k + n)
      | None \<Rightarrow> try_open s k)"

definition match_url_re :: "string \<Rightarrow> (string \<times> nat) option" where
  \<comment> \<open>a match starting at the first character: the capture and the length of the match\<close>
  "match_url_re s =
     (if startsWith s ''url('' then
        (let r = drop 4 s
         in case try_open r (length (takeWhile is_space r)) of
              Some (cap, n) \<Rightarrow> Some (cap, 4 + n)
            | None \<Rightarrow> None)
      else None)"

fun exec_all :: "nat \<Rightarrow> string \<Rightarrow> string list" where
  \<comment> \<open>the \<open>while ((m = re.exec(cssText)) !== null)\<close> loop: the captures \<open>m[1]\<close>, left to
      right; the first argument counts the characters of the last match still to skip\<close>
  "exec_all k [] = []"
| "exec_all (Suc k) (c # cs) = exec_all k cs"
| "exec_all 0 (c # cs) =
     (case match_url_re (c # cs) of
        Some (cap, n) \<Rightarrow> cap # exec_all (n - 1) cs
      | None \<Rightarrow> exec_all 0 cs)"

definition findCssUrls :: "env \<Rightarrow> string \<Rightarrow> string \<Rightarrow> string list" where
  "findCssUrls env cssText base =
     List.map_filter
       (\<lambda>cap. let u = absoluteUrl env base (Some cap) in if truthy u then u else None)
       (exec_all 0 cssText)"

section \<open>fetchWithTimeout and probeResource\<close>

definition fetchWithTimeout ::
  "env \<Rightarrow> string \<Rightarrow> http_method \<Rightarrow> nat \<Rightarrow> event list \<Rightarrow> (js_error + response) \<times> event list" where
  "fetchWithTimeout env u m timeout log = (net env log m u timeout, log @ [Fetch m u timeout])"

text \<open>
  The values the \<open>size\<close> of a result can have: \<open>null\<close>, or a number, which is \<open>NaN\<close>,
  an infinity or, in every other case here, a whole number.
\<close>

datatype jsnum = JNull | JNaN | JInfinity | JNegInfinity | JNum int

fun bit_length :: "nat \<Rightarrow> nat" where
  "bit_length n = (if n = 0 then 0 else Suc (bit_length (n div 2)))"

declare bit_length.simps [simp del]

definition round_double :: "nat \<Rightarrow> nat option" where
  \<comment> \<open>the Number value for a natural number: the number itself below \<open>2^53\<close>, else the
      nearest number with 53 significant bits, a tie going to the even one; \<open>None\<close> is
      \<open>Infinity\<close>\<close>
  "round_double n =
     (if n < 2 ^ 53 then Some n
      else
        let k = bit_length n - 53;
            q = n div 2 ^ k;
            r = n mod 2 ^ k;
            q' = (if 2 ^ k < 2 * r \<or> (2 * r = 2 ^ k \<and> odd q) then q + 1 else q)
        in if 2 ^ 1024 \<le> q' * 2 ^ k then None else Some (q' * 2 ^ k))"

definition parseInt10 :: "string \<Rightarrow> jsnum" where
  \<comment> \<open>\<open>parseInt(s, 10)\<close>: leading white space, an optional sign, then the longest run of
      decimal digits, read as a Number; \<open>NaN\<close> when there is no digit. \<open>-0\<close> is not
      told from \<open>0\<close>: both are falsy and both are written \<open>0\<close>.\<close>
  "parseInt10 s =
     (let t = dropWhile is_space s;
          neg = (case t of [] \<Rightarrow> False | c # _ \<Rightarrow> c = CHR ''-'');
          t' = (case t of [] \<Rightarrow> [] | c # r \<Rightarrow> if c = CHR ''-'' \<or> c = CHR ''+'' then r else t);
          ds = takeWhile is_digit t';
          v = foldl (\<lambda>a c. 10 * a + ((of_char c :: nat) - 48)) 0 ds
      in if ds = [] then JNaN
         else (case round_double v of
                 None \<Rightarrow> if neg then JNegInfinity else JInfinity
               | Some d \<Rightarrow> JNum (if neg then - int d else int d)))"

datatype initiator_tag =
  Document | Script | Img | ImgSrcset | Stylesheet | Preload | Iframe | Media
| InlineStyle | StyleTag | CssUrl

record probe_result =
  url :: string
  status :: "nat option"
  ok :: bool
  contentType :: "string option"
  size' :: jsnum
  timeMs :: "int option"
  methodTried :: "http_method option"
  error :: "string option"
  initiator :: "initiator_tag option"

definition size_falsy_or_nan :: "jsnum \<Rightarrow> bool" where
  \<comment> \<open>\<open>!result.size || isNaN(result.size)\<close>\<close>
  "size_falsy_or_nan v =
     (case v of JNull \<Rightarrow> True | JNaN \<Rightarrow> True | JNum n \<Rightarrow> n = 0 | _ \<Rightarrow> False)"

definition record_response ::
  "probe_result \<Rightarrow> response \<Rightarrow> event list \<Rightarrow> probe_result \<times> event list" where
  \<comment> \<open>lines 84 to 96: the response \<open>res\<close> the probe settled on is written into the result\<close>
  "record_response result res log =
     (let r1 = result\<lparr>status := Some (r_status res), ok := r_ok res,
                 contentType := (let ct = headers_get res ''content-type''
                                 in if truthy ct then ct else None)\<rparr>;
          cl = headers_get res ''content-length'';
          r2 = (case cl of
                  None \<Rightarrow> r1
                | Some c \<Rightarrow> if c \<noteq> [] then r1\<lparr>size' := parseInt10 c\<rparr> else r1)
      in if size_falsy_or_nan (size' r2) \<and> methodTried r2 = Some GET then
           (case r_body res of
              Inl e \<Rightarrow> (r2, log @ [ReadBody (url r2)])
            | Inr buf \<Rightarrow> (r2\<lparr>size' := JNum (int (length buf))\<rparr>, log @ [ReadBody (url r2)]))
         else (r2, log))"

definition probe_try :: "env \<Rightarrow> probe_result \<Rightarrow> event list \<Rightarrow> probe_result \<times> event list" where
  \<comment> \<open>the \<open>try\<close> block with its \<open>catch\<close>\<close>
  "probe_try env result log =
     (let r0 = result\<lparr>methodTried := Some HEAD\<rparr>
      in case fetchWithTimeout env (url r0) HEAD TIMEOUT log of
           (Inl err, log1) \<Rightarrow> (r0\<lparr>error := Some (err_text err)\<rparr>, log1)
         | (Inr res, log1) \<Rightarrow>
             if r_status res = 405 \<or> r_status res = 501 then
               (let r1 = r0\<lparr>methodTried := Some GET\<rparr>
                in case fetchWithTimeout env (url r1) GET TIMEOUT log1 of
                     (Inl err, log2) \<Rightarrow> (r1\<lparr>error := Some (err_text err)\<rparr>, log2)
                   | (Inr res', log2) \<Rightarrow> record_response r1 res' log2)
             else record_response r0 res log1)"

definition initial_result :: "string \<Rightarrow> probe_result" where
  \<comment> \<open>lines 65 to 74; \<open>initiator\<close> is the property the caller adds at line 201\<close>
  "initial_result resourceUrl =
     \<lparr>url = resourceUrl, status = None, ok = False, contentType = None, size' = JNull,
       timeMs = None, methodTried = None, error = None, initiator = None\<rparr>"

definition probeResource :: "env \<Rightarrow> string \<Rightarrow> event list \<Rightarrow> probe_result \<times> event list" where
  "probeResource env resourceUrl log =
     (let result = initial_result resourceUrl;
          start = now env log;
          (r, log') = probe_try env result log
      in (r\<lparr>timeMs := Some (now env log' - start)\<rparr>, log'))"

definition json_number :: "jsnum \<Rightarrow> int option" where
  \<comment> \<open>what \<open>res.json\<close> writes for a number-or-null field: \<open>NaN\<close> and the infinities
      are written as \<open>null\<close>\<close>
  "json_number v = (case v of JNum n \<Rightarrow> Some n | _ \<Rightarrow> None)"

section \<open>The handler of POST /api/inspect\<close>

record main_status =
  ms_status :: nat
  ms_ok :: bool
  ms_contentType :: "string option"

text \<open>
  An entry of \<open>resources\<close>, \<open>toProbe\<close> and \<open>probes\<close>. Only the first element of
  \<open>probes\<close> has \<open>mainStatus\<close> and \<open>mainTimeMs\<close>.
\<close>

record item =
  i_url :: string
  i_initiator :: initiator_tag
  mainStatus :: "main_status option"
  mainTimeMs :: "int option"

definition mk_item :: "string \<Rightarrow> initiator_tag \<Rightarrow> item" where
  \<comment> \<open>\<open>{ url: u, initiator }\<close>\<close>
  "mk_item u i = \<lparr>i_url = u, i_initiator = i, mainStatus = None, mainTimeMs = None\<rparr>"

text \<open>A \<open>Map\<close> keeps its keys in insertion order; \<open>set\<close> on a present key keeps its place.\<close>

type_synonym cmap = "(string \<times> item) list"

definition map_has :: "cmap \<Rightarrow> string \<Rightarrow> bool" where
  "map_has m k = list_ex (\<lambda>p. fst p = k) m"

definition map_set :: "cmap \<Rightarrow> string \<Rightarrow> item \<Rightarrow> cmap" where
  "map_set m k v =
     (if map_has m k then map (\<lambda>p. if fst p = k then (k, v) else p) m else m @ [(k, v)])"

definition pushUrl :: "env \<Rightarrow> cmap \<Rightarrow> string option \<Rightarrow> initiator_tag \<Rightarrow> cmap" where
  "pushUrl env resources u ini =
     (case u of
        None \<Rightarrow> resources
      | Some u' \<Rightarrow>
          if u' = [] then resources
          else if isBlockedUrl env u' then resources
          else if \<not> map_has resources u' then map_set resources u' (mk_item u' ini)
          else resources)"

fun split_on :: "char \<Rightarrow> string \<Rightarrow> string list" where
  \<comment> \<open>\<open>s.split(c)\<close> for a one-character separator\<close>
  "split_on c [] = [[]]"
| "split_on c (x # xs) =
     (if x = c then [] # split_on c xs
      else (case split_on c xs of [] \<Rightarrow> [[x]] | w # ws \<Rightarrow> (x # w) # ws))"

definition first_token :: "string \<Rightarrow> string" where
  \<comment> \<open>\<open>s.split(/\s+/)[0]\<close>\<close>
  "first_token s = takeWhile (\<lambda>c. \<not> is_space c) s"

definition img_each :: "env \<Rightarrow> string \<Rightarrow> cmap \<Rightarrow> element \<Rightarrow> cmap" where
  "img_each env target resources el =
     (let src = js_or (attr el ''src'') (attr el ''data-src'');
          r1 = pushUrl env resources (absoluteUrl env target src) Img
      in case attr el ''srcset'' of
           None \<Rightarrow> r1
         | Some srcset \<Rightarrow>
             if srcset = [] then r1
             else foldl (\<lambda>r part.
                     pushUrl env r (absoluteUrl env target (Some (first_token (trim part))))
                       ImgSrcset)
                    r1 (split_on CHR '','' srcset))"

definition push_css :: "env \<Rightarrow> string \<Rightarrow> initiator_tag \<Rightarrow> cmap \<Rightarrow> string \<Rightarrow> cmap" where
  \<comment> \<open>\<open>findCssUrls(css, target).forEach(u => pushUrl(u, initiator))\<close>\<close>
  "push_css env target ini resources css =
     foldl (\<lambda>r u. pushUrl env r (Some u) ini) resources (findCssUrls env css target)"

definition or_empty :: "string option \<Rightarrow> string" where
  \<comment> \<open>\<open>v || ''\<close>\<close>
  "or_empty v = (case v of None \<Rightarrow> [] | Some s \<Rightarrow> s)"

definition discover :: "env \<Rightarrow> string \<Rightarrow> page \<Rightarrow> cmap" where
  \<comment> \<open>lines 125 to 156: the map \<open>resources\<close> after the eight passes over the document\<close>
  "discover env target pg =
     (let r0 = [];
          r1 = foldl (\<lambda>r el. pushUrl env r (absoluteUrl env target (attr el ''src'')) Script)
                 r0 (q_script_src pg);
          r2 = foldl (img_each env target) r1 (q_img pg);
          r3 = foldl (\<lambda>r el. pushUrl env r (absoluteUrl env target (attr el ''href'')) Stylesheet)
                 r2 (q_link_stylesheet pg);
          r4 = foldl (\<lambda>r el. pushUrl env r (absoluteUrl env target (attr el ''href'')) Preload)
                 r3 (q_link_preload_href pg);
          r5 = foldl (\<lambda>r el. pushUrl env r (absoluteUrl env target (attr el ''src'')) Iframe)
                 r4 (q_iframe pg);
          r6 = foldl (\<lambda>r el. pushUrl env r (absoluteUrl env target (attr el ''src'')) Media)
                 r5 (q_media pg);
          r7 = foldl (\<lambda>r el. push_css env target InlineStyle r (or_empty (attr el ''style'')))
                 r6 (q_style_attr pg);
          r8 = foldl (\<lambda>r el. push_css env target StyleTag r (or_empty (inner_html el)))
                 r7 (q_style pg)
      in r8)"

definition cssLinks_of :: "env \<Rightarrow> string \<Rightarrow> page \<Rightarrow> string option list" where
  \<comment> \<open>lines 158 to 162; an entry is \<open>None\<close> where \<open>absoluteUrl\<close> returned \<open>null\<close>\<close>
  "cssLinks_of env target pg =
     concat (map (\<lambda>el. let h = attr el ''href''
                        in if truthy h then [absoluteUrl env target h] else [])
               (q_link_stylesheet pg))"

fun build_toProbe :: "cmap \<Rightarrow> item list \<Rightarrow> item list" where
  \<comment> \<open>lines 165 to 169\<close>
  "build_toProbe [] toProbe = toProbe"
| "build_toProbe ((u, meta) # rest) toProbe =
     (if length toProbe \<ge> MAX_RESOURCES then toProbe
      else build_toProbe rest (toProbe @ [mk_item u (i_initiator meta)]))"

fun add_extra :: "string list \<Rightarrow> item list \<Rightarrow> item list" where
  \<comment> \<open>lines 180 to 183\<close>
  "add_extra [] toProbe = toProbe"
| "add_extra (u # us) toProbe =
     (if length toProbe \<ge> MAX_RESOURCES then toProbe
      else add_extra us
             (if \<not> list_ex (\<lambda>x. i_url x = u) toProbe then toProbe @ [mk_item u CssUrl]
              else toProbe))"

fun crawl :: "env \<Rightarrow> string option list \<Rightarrow> item list \<Rightarrow> event list \<Rightarrow> item list \<times> event list" where
  \<comment> \<open>lines 172 to 188\<close>
  "crawl env [] toProbe log = (toProbe, log)"
| "crawl env (cssUrl # rest) toProbe log =
     (if \<not> truthy cssUrl \<or> length toProbe \<ge> MAX_RESOURCES then (toProbe, log)
      else
        let u = or_empty cssUrl
        in if isBlockedUrl env u then crawl env rest toProbe log
           else
             (case fetchWithTimeout env u GET CSS_FETCH_TIMEOUT log of
                (Inl e, log1) \<Rightarrow> crawl env rest toProbe log1
              | (Inr r, log1) \<Rightarrow>
                  if r_ok r then
                    (case r_body r of
                       Inl e \<Rightarrow> crawl env rest toProbe (log1 @ [ReadBody u])
                     | Inr cssText \<Rightarrow>
                         crawl env rest (add_extra (findCssUrls env cssText u) toProbe)
                           (log1 @ [ReadBody u]))
                  else crawl env rest toProbe log1))"

definition slice :: "'a list \<Rightarrow> nat \<Rightarrow> nat \<Rightarrow> 'a list" where
  \<comment> \<open>\<open>xs.slice(i, j)\<close> for indices that are not negative\<close>
  "slice xs i j = take (j - i) (drop i xs)"

definition probe_item :: "env \<Rightarrow> item \<Rightarrow> event list \<Rightarrow> probe_result \<times> event list" where
  \<comment> \<open>the body of \<open>chunk.map\<close>; \<open>probeResource\<close> has no failing outcome, so the \<open>catch\<close>
      of line 203 has no branch here\<close>
  "probe_item env it log =
     (let (info, log') = probeResource env (i_url it) log
      in (info\<lparr>initiator := Some (i_initiator it)\<rparr>, log'))"

text \<open>
  The probes of one chunk run concurrently: \<open>chunk.map\<close> calls the \<open>async\<close> callback for
  every item in turn, and each call runs up to its first \<open>await\<close>, which is the HEAD
  request of \<open>probeResource\<close>. From then on a probe goes on whenever what it waits for
  has settled, up to its next \<open>await\<close> or its end. A task is a probe at an \<open>await\<close>:
  it holds the result so far, the time the probe started and what it waits for. What a
  request settles to is asked of the platform when the request is sent, as in
  \<open>fetchWithTimeout\<close>; the clock is read when the probe goes on.
\<close>

datatype task =
  AwaitFetch probe_result int "js_error + response"
| AwaitBody probe_result int response
| Settled probe_result

definition record_headers :: "probe_result \<Rightarrow> response \<Rightarrow> probe_result" where
  \<comment> \<open>lines 84 to 88\<close>
  "record_headers result res =
     (let r1 = result\<lparr>status := Some (r_status res), ok := r_ok res,
                 contentType := (let ct = headers_get res ''content-type''
                                 in if truthy ct then ct else None)\<rparr>
      in case headers_get res ''content-length'' of
           None \<Rightarrow> r1
         | Some c \<Rightarrow> if c \<noteq> [] then r1\<lparr>size' := parseInt10 c\<rparr> else r1)"

definition record_body :: "probe_result \<Rightarrow> response \<Rightarrow> probe_result" where
  \<comment> \<open>lines 90 to 95, once \<open>res.arrayBuffer()\<close> has settled\<close>
  "record_body result res =
     (case r_body res of
        Inl e \<Rightarrow> result
      | Inr buf \<Rightarrow> result\<lparr>size' := JNum (int (length buf))\<rparr>)"

definition task_start :: "env \<Rightarrow> item \<Rightarrow> event list \<Rightarrow> task \<times> event list" where
  \<comment> \<open>\<open>probeResource(item.url)\<close> up to the \<open>await\<close> of line 79\<close>
  "task_start env it log =
     (let r0 = (initial_result (i_url it))\<lparr>methodTried := Some HEAD\<rparr>;
          start = now env log;
          (outcome, log1) = fetchWithTimeout env (url r0) HEAD TIMEOUT log
      in (AwaitFetch r0 start outcome, log1))"

definition task_resume :: "env \<Rightarrow> task \<Rightarrow> event list \<Rightarrow> task \<times> event list" where
  \<comment> \<open>a probe goes on from its \<open>await\<close> to the next one, or to its end through \<open>finally\<close>\<close>
  "task_resume env t log =
     (case t of
        AwaitFetch r start outcome \<Rightarrow>
          (case outcome of
             Inl err \<Rightarrow>
               (Settled (r\<lparr>error := Some (err_text err),
                           timeMs := Some (now env log - start)\<rparr>), log)
           | Inr res \<Rightarrow>
               if methodTried r = Some HEAD \<and> (r_status res = 405 \<or> r_status res = 501) then
                 (let r1 = r\<lparr>methodTried := Some GET\<rparr>;
                      (outcome', log1) = fetchWithTimeout env (url r1) GET TIMEOUT log
                  in (AwaitFetch r1 start outcome', log1))
               else
                 (let r2 = record_headers r res
                  in if size_falsy_or_nan (size' r2) \<and> methodTried r2 = Some GET then
                       (AwaitBody r2 start res, log @ [ReadBody (url r2)])
                     else (Settled (r2\<lparr>timeMs := Some (now env log - start)\<rparr>), log)))
      | AwaitBody r start res \<Rightarrow>
          (Settled ((record_body r res)\<lparr>timeMs := Some (now env log - start)\<rparr>), log)
      | Settled r \<Rightarrow> (Settled r, log))"

definition is_settled :: "task \<Rightarrow> bool" where
  "is_settled t = (case t of Settled r \<Rightarrow> True | _ \<Rightarrow> False)"

definition task_result :: "task \<Rightarrow> probe_result" where
  "task_result t =
     (case t of AwaitFetch r start outcome \<Rightarrow> r | AwaitBody r start res \<Rightarrow> r | Settled r \<Rightarrow> r)"

definition task_weight :: "task \<Rightarrow> nat" where
  \<comment> \<open>a bound on the number of times the task can still go on\<close>
  "task_weight t =
     (case t of
        AwaitFetch r start outcome \<Rightarrow> (if methodTried r = Some HEAD then 3 else 2)
      | AwaitBody r start res \<Rightarrow> 1
      | Settled r \<Rightarrow> 0)"

fun start_all :: "env \<Rightarrow> item list \<Rightarrow> event list \<Rightarrow> task list \<times> event list" where
  \<comment> \<open>\<open>chunk.map\<close>: every probe of the chunk sends its HEAD request, in the chunk's order\<close>
  "start_all env [] log = ([], log)"
| "start_all env (it # its) log =
     (let (t, log1) = task_start env it log;
          (ts, log2) = start_all env its log1
      in (t # ts, log2))"

function run_batch :: "env \<Rightarrow> task list \<Rightarrow> event list \<Rightarrow> task list \<times> event list" where
  \<comment> \<open>\<open>await Promise.all(promises)\<close>: the waiting probes go on, one at a time in the order
      the platform settles what they wait for, until every probe has ended\<close>
  "run_batch env ts log =
     (let pending = filter (\<lambda>i. \<not> is_settled (ts ! i)) [0 ..< length ts]
      in if pending = [] then (ts, log)
         else
           (let i = pending ! (sched env log pending mod length pending);
                (t', log') = task_resume env (ts ! i) log
            in run_batch env (ts[i := t']) log'))"
  by pat_completeness auto
termination
proof (relation "measure (\<lambda>(env, ts, log). sum_list (map task_weight ts))")
  show "wf (measure (\<lambda>(env, ts, log). sum_list (map task_weight ts)))"
    by simp
next
  fix env :: env and ts :: "task list" and log :: "event list"
    and pending :: "nat list" and i :: nat and x :: "task \<times> event list"
    and t' :: task and log' :: "event list"
  assume p: "pending = filter (\<lambda>i. \<not> is_settled (ts ! i)) [0 ..< length ts]"
    and ne: "pending \<noteq> []"
    and i: "i = pending ! (sched env log pending mod length pending)"
    and x: "x = task_resume env (ts ! i) log" and t': "(t', log') = x"
  from ne have "i \<in> set pending"
    unfolding i by (intro nth_mem) simp
  with p have il: "i < length ts" and ns: "\<not> is_settled (ts ! i)"
    by auto
  have "task_weight (fst (task_resume env (ts ! i) log)) < task_weight (ts ! i)"
  proof (cases "ts ! i")
    case (AwaitFetch r start outcome)
    then show ?thesis
      by (simp add: task_resume_def task_weight_def fetchWithTimeout_def Let_def
          split: sum.split)
  next
    case (AwaitBody r start res)
    then show ?thesis by (simp add: task_resume_def task_weight_def)
  next
    case (Settled r)
    with ns show ?thesis by (simp add: is_settled_def)
  qed
  moreover have "t' = fst (task_resume env (ts ! i) log)"
    using t' [symmetric] by (simp add: x [symmetric])
  ultimately have w: "task_weight t' < task_weight (ts ! i)"
    by simp
  have "sum_list (map task_weight (ts[i := t']))
          = sum_list (map task_weight ts) + task_weight t' - task_weight (ts ! i)"
    using il by (simp add: map_update sum_list_update)
  moreover have "task_weight (ts ! i) \<le> sum_list (map task_weight ts)"
    using il member_le_sum_list [of "task_weight (ts ! i)" "map task_weight ts"] by simp
  ultimately have "sum_list (map task_weight (ts[i := t'])) < sum_list (map task_weight ts)"
    using w by simp
  then show "((env, ts[i := t'], log'), (env, ts, log))
               \<in> measure (\<lambda>(env, ts, log). sum_list (map task_weight ts))"
    by simp
qed

declare run_batch.simps [simp del]

definition probe_chunk :: "env \<Rightarrow> item list \<Rightarrow> event list \<Rightarrow> probe_result list \<times> event list" where
  \<comment> \<open>lines 198 to 207: the results of one chunk, in the chunk's order, each with the
      initiator of its item (line 201)\<close>
  "probe_chunk env chunk log =
     (let (ts, log1) = start_all env chunk log;
          (ts', log2) = run_batch env ts log1
      in (map (\<lambda>(it, t). (task_result t)\<lparr>initiator := Some (i_initiator it)\<rparr>) (zip chunk ts'),
          log2))"

function probe_loop ::
  "env \<Rightarrow> item list \<Rightarrow> nat \<Rightarrow> probe_result list \<Rightarrow> event list \<Rightarrow> probe_result list \<times> event list" where
  \<comment> \<open>lines 195 to 209\<close>
  "probe_loop env probes i results log =
     (if i < length probes then
        (let chunk = slice probes i (i + CONCURRENCY);
             (chunkResults, log') = probe_chunk env chunk log
         in probe_loop env probes (i + CONCURRENCY) (results @ chunkResults) log')
      else (results, log))"
  by pat_completeness auto
termination
  by (relation "measure (\<lambda>(env, probes, i, results, log). length probes - i)")
     (auto simp: CONCURRENCY_def)

declare probe_loop.simps [simp del]

record main_info =
  m_status :: nat
  m_ok :: bool
  m_contentType :: "string option"
  m_timeMs :: "int option"

record report =
  fetchedUrl :: string
  main :: "main_info option"
  resources :: "probe_result list"
  note' :: string

datatype reply =
  Status400 string
| Status502 string string
| Status200 report

definition the_note :: string where
  "the_note = ''Limited to 200 resources. Dynamic requests (XHR/fetch inserted by page JS) won't be captured because the tool does not execute page JS.''"

definition make_probes :: "string \<Rightarrow> response \<Rightarrow> int \<Rightarrow> item list \<Rightarrow> item list" where
  \<comment> \<open>lines 191 and 192\<close>
  "make_probes target pageResp mainTime toProbe =
     \<lparr>i_url = target, i_initiator = Document,
       mainStatus = Some \<lparr>ms_status = r_status pageResp, ms_ok = r_ok pageResp,
                           ms_contentType = headers_get pageResp ''content-type''\<rparr>,
       mainTimeMs = Some mainTime\<rparr>
     # slice (filter (\<lambda>t. i_url t \<noteq> target) toProbe) 0 MAX_RESOURCES"

definition make_report :: "string \<Rightarrow> item list \<Rightarrow> probe_result list \<Rightarrow> report" where
  \<comment> \<open>lines 211 to 216; \<open>probes\<close> is never empty there\<close>
  "make_report target probes results =
     \<lparr>fetchedUrl = target,
       main = (case probes of
                 [] \<Rightarrow> None
               | p0 # _ \<Rightarrow>
                   (case mainStatus p0 of
                      None \<Rightarrow> None
                    | Some ms \<Rightarrow> Some \<lparr>m_status = ms_status ms, m_ok = ms_ok ms,
                                        m_contentType = ms_contentType ms,
                                        m_timeMs = mainTimeMs p0\<rparr>)),
       resources = slice results 0 MAX_RESOURCES,
       note' = the_note\<rparr>"

definition candidates :: "env \<Rightarrow> string \<Rightarrow> string \<Rightarrow> event list \<Rightarrow> item list \<times> event list" where
  \<comment> \<open>lines 124 to 188: \<open>toProbe\<close> after discovery and the style sheet crawl\<close>
  "candidates env target html log =
     (let pg = load env html;
          resources = discover env target pg;
          cssLinks = cssLinks_of env target pg;
          toProbe = build_toProbe resources []
      in crawl env cssLinks toProbe log)"

definition inspect :: "env \<Rightarrow> string option \<Rightarrow> event list \<Rightarrow> reply \<times> event list" where
  \<comment> \<open>the handler, for a request body whose \<open>url\<close> is a string or absent\<close>
  "inspect env body_url log =
     (let target = trim (or_empty body_url)
      in if target = [] then (Status400 ''Missing url in body'', log)
         else if isBlockedUrl env target then
           (Status400 ''URL blocked (private or non-http(s) scheme)'', log)
         else
           let tStart = now env log
           in case fetchWithTimeout env target GET TIMEOUT log of
                (Inl err, log1) \<Rightarrow> (Status502 ''Failed to fetch target URL'' (err_text err), log1)
              | (Inr pageResp, log1) \<Rightarrow>
                  (case r_body pageResp of
                     Inl err \<Rightarrow>
                       (Status502 ''Failed to fetch target URL'' (err_text err),
                        log1 @ [ReadBody target])
                   | Inr html \<Rightarrow>
                       let log2 = log1 @ [ReadBody target];
                           mainTime = now env log2 - tStart;
                           (toProbe, log3) = candidates env target html log2;
                           probes = make_probes target pageResp mainTime toProbe;
                           (results, log4) = probe_loop env probes 0 [] log3
                       in (Status200 (make_report target probes results), log4)))"

section \<open>An example platform\<close>

text \<open>
  A small platform on which the functions above can be run. Its URL parser knows the
  URLs \<open>http://host/path\<close> and \<open>https://host/path\<close> for the hosts listed and for paths of
  lower-case letters, digits, dots and slashes without dot segments, and resolves an
  absolute URL or a path starting with one slash against a base; on these inputs it
  agrees with the URL Standard, and it fails on everything else.
\<close>

definition ex_hosts :: "string list" where
  "ex_hosts = [''example.com'', ''cdn.example.com'', ''127.0.0.1'', ''localhost'',
               ''printer.local'', ''10.0.0.5'']"

definition ex_path_char :: "char \<Rightarrow> bool" where
  "ex_path_char c =
     (let n = (of_char c :: nat)
      in (97 \<le> n \<and> n \<le> 122) \<or> (48 \<le> n \<and> n \<le> 57) \<or> c = CHR ''/'' \<or> c = CHR ''.'')"

fun ex_path_ok :: "string \<Rightarrow> bool" where
  "ex_path_ok [] = True"
| "ex_path_ok [c] = ex_path_char c"
| "ex_path_ok (c # d # r) =
     (ex_path_char c \<and> \<not> (c = CHR ''/'' \<and> d = CHR ''.'') \<and> ex_path_ok (d # r))"

definition ex_parse_rest :: "string \<Rightarrow> string \<Rightarrow> url_obj option" where
  "ex_parse_rest scheme rest =
     (let host = takeWhile (\<lambda>c. c \<noteq> CHR ''/'') rest;
          path = dropWhile (\<lambda>c. c \<noteq> CHR ''/'') rest
      in if array_includes ex_hosts host \<and> ex_path_ok path then
           Some \<lparr>protocol = scheme, hostname = host,
                  href = scheme @ ''//'' @ host @ (if path = [] then ''/'' else path)\<rparr>
         else None)"

definition ex_parse :: "string \<Rightarrow> url_obj option" where
  "ex_parse s =
     (if startsWith s ''https://'' then ex_parse_rest ''https:'' (drop 8 s)
      else if startsWith s ''http://'' then ex_parse_rest ''http:'' (drop 7 s)
      else None)"

definition ex_newURL :: "string \<Rightarrow> string option \<Rightarrow> url_obj option" where
  "ex_newURL input base =
     (case base of
        None \<Rightarrow> ex_parse input
      | Some b \<Rightarrow>
          (case ex_parse b of
             None \<Rightarrow> None
           | Some bu \<Rightarrow>
               if startsWith input ''https://'' \<or> startsWith input ''http://'' then ex_parse input
               else if startsWith input ''/'' \<and> \<not> startsWith input ''//'' then
                 ex_parse (protocol bu @ ''//'' @ hostname bu @ input)
               else None))"

definition ex_response :: "nat \<Rightarrow> (string \<times> string) list \<Rightarrow> js_error + string \<Rightarrow> response" where
  "ex_response st hs b =
     \<lparr>r_status = st, r_ok = (200 \<le> st \<and> st \<le> 299), r_headers = hs, r_body = b\<rparr>"

definition ex_html_css :: string where
  "ex_html_css = ''<link rel=stylesheet href=/b.css>''"

definition ex_html_two_links :: string where
  "ex_html_two_links = ''<link rel=stylesheet href=http://[><link rel=stylesheet href=/c.css>''"

definition ex_html_one_link :: string where
  "ex_html_one_link = ''<link rel=stylesheet href=/c.css>''"

definition ex_html_img :: string where
  "ex_html_img = ''<img src=/a.png><a href=/page3>again</a><img src=/page3>''"

definition ex_css_b :: string where
  "ex_css_b = ''a{background:url(http://127.0.0.1/admin)}''"

definition ex_css_c :: string where
  "ex_css_c = ''a{background:url(/d.png)}''"

definition ex_el :: "(string \<times> string) list \<Rightarrow> element" where
  "ex_el as = \<lparr>attrs = as, inner_html = Some []\<rparr>"

definition ex_page :: "element list \<Rightarrow> element list \<Rightarrow> page" where
  \<comment> \<open>a document with the given \<open>img\<close> and \<open>link[rel="stylesheet"]\<close> elements only\<close>
  "ex_page imgs links =
     \<lparr>q_script_src = [], q_img = imgs, q_link_stylesheet = links, q_link_preload_href = [],
       q_iframe = [], q_media = [], q_style_attr = [], q_style = []\<rparr>"

definition ex_many_srcs :: "string list" where
  \<comment> \<open>201 different paths \<open>/aa\<close>, \<open>/ab\<close>, ...\<close>
  "ex_many_srcs =
     take 201 (concat (map (\<lambda>a. map (\<lambda>b. [CHR ''/'', a, b]) ''abcdefghijklmno'')
                         ''abcdefghijklmno''))"

definition ex_page_many :: page where
  \<comment> \<open>a document of 201 \<open>script\<close> elements with the sources \<open>ex_many_srcs\<close>\<close>
  "ex_page_many =
     \<lparr>q_script_src = map (\<lambda>s. ex_el [(''src'', s)]) ex_many_srcs, q_img = [],
       q_link_stylesheet = [], q_link_preload_href = [], q_iframe = [], q_media = [],
       q_style_attr = [], q_style = []\<rparr>"

definition ex_load :: "string \<Rightarrow> page" where
  "ex_load html =
     (if html = ex_html_css then
        ex_page [] [ex_el [(''rel'', ''stylesheet''), (''href'', ''/b.css'')]]
      else if html = ex_html_two_links then
        ex_page [] [ex_el [(''rel'', ''stylesheet''), (''href'', ''http://['')],
                    ex_el [(''rel'', ''stylesheet''), (''href'', ''/c.css'')]]
      else if html = ex_html_one_link then
        ex_page [] [ex_el [(''rel'', ''stylesheet''), (''href'', ''/c.css'')]]
      else if html = ex_html_img then
        ex_page [ex_el [(''src'', ''/a.png'')], ex_el [(''src'', ''/page3'')]] []
      else ex_page [] [])"

definition ex_usual :: response where
  \<comment> \<open>what the example network answers where nothing else is said\<close>
  "ex_usual = ex_response 200 [(''content-type'', ''image/png''), (''content-length'', ''42'')]
                (Inr [])"

definition ex_net :: "event list \<Rightarrow> http_method \<Rightarrow> string \<Rightarrow> nat \<Rightarrow> js_error + response" where
  "ex_net log m u t =
     (if m = GET \<and> u = ''https://example.com/page'' then
        Inr (ex_response 200 [(''content-type'', ''text/html'')] (Inr ex_html_css))
      else if m = GET \<and> u = ''https://example.com/page2'' then
        Inr (ex_response 200 [(''content-type'', ''text/html'')] (Inr ex_html_two_links))
      else if m = GET \<and> u = ''https://example.com/page1'' then
        Inr (ex_response 200 [(''content-type'', ''text/html'')] (Inr ex_html_one_link))
      else if m = GET \<and> u = ''https://example.com/page3'' then
        Inr (ex_response 200 [(''content-type'', ''text/html'')] (Inr ex_html_img))
      else if m = GET \<and> u = ''https://example.com/b.css'' then
        Inr (ex_response 200 [(''content-type'', ''text/css'')] (Inr ex_css_b))
      else if m = GET \<and> u = ''https://example.com/c.css'' then
        Inr (ex_response 200 [(''content-type'', ''text/css'')] (Inr ex_css_c))
      else if u = ''https://example.com/down.png'' then
        Inl \<lparr>message = ''fetch failed'', as_string = ''TypeError: fetch failed''\<rparr>
      else if m = HEAD \<and> u = ''https://example.com/nohead.png'' then
        Inr (ex_response 405 [] (Inr []))
      else if m = GET \<and> u = ''https://example.com/nohead.png'' then
        Inr (ex_response 200 [(''content-type'', ''image/png'')] (Inr ''0123456789''))
      else if m = HEAD \<and> u = ''https://example.com/cut.png'' then
        Inr (ex_response 501 [] (Inr []))
      else if m = GET \<and> u = ''https://example.com/cut.png'' then
        Inr (ex_response 200 [(''content-type'', ''image/png'')]
               (Inl \<lparr>message = ''terminated'', as_string = ''TypeError: terminated''\<rparr>))
      else if m = HEAD \<and> u = ''https://example.com/zero.png'' then
        Inr (ex_response 405 [] (Inr []))
      else if m = GET \<and> u = ''https://example.com/zero.png'' then
        Inr (ex_response 200 [(''content-length'', ''0'')] (Inr ''0123456789''))
      else if m = HEAD \<and> u = ''https://example.com/odd.png'' then
        Inr (ex_response 200 [(''content-length'', ''abc'')] (Inr []))
      else if m = HEAD \<and> u = ''https://example.com/big.png'' then
        Inr (ex_response 200 [(''content-length'', ''9007199254740993'')] (Inr []))
      else if m = HEAD \<and> u = ''https://example.com/huge.png'' then
        Inr (ex_response 200 [(''content-length'', CHR ''1'' # replicate 309 (CHR ''0''))] (Inr []))
      else if m = HEAD \<and> u = ''https://example.com/plain.png'' then
        Inr (ex_response 200 [(''content-type'', ''image/png'')] (Inr []))
      else Inr ex_usual)"

definition ex_env :: env where
  "ex_env = \<lparr>newURL = ex_newURL, net = ex_net, now = (\<lambda>log. 10 * int (length log)),
             load = ex_load, sched = (\<lambda>log pending. 0)\<rparr>"


section \<open>Notions used in the statements\<close>

definition requests :: "event list \<Rightarrow> event list" where
  \<comment> \<open>the requests among the events\<close>
  "requests log = filter (\<lambda>e. case e of Fetch m u t \<Rightarrow> True | ReadBody u \<Rightarrow> False) log"

definition final_response :: "env \<Rightarrow> string \<Rightarrow> event list \<Rightarrow> (http_method \<times> response) option" where
  \<comment> \<open>the method a probe of \<open>u\<close> ends with and the response it then holds; \<open>None\<close> when
      one of its requests fails\<close>
  "final_response env u log =
     (case net env log HEAD u TIMEOUT of
        Inl e \<Rightarrow> None
      | Inr res \<Rightarrow>
          if r_status res = 405 \<or> r_status res = 501 then
            (case net env (log @ [Fetch HEAD u TIMEOUT]) GET u TIMEOUT of
               Inl e \<Rightarrow> None
             | Inr res' \<Rightarrow> Some (GET, res'))
          else Some (HEAD, res))"

definition content_length :: "response \<Rightarrow> jsnum" where
  \<comment> \<open>the content-length header as a number: \<open>null\<close> when absent or empty, \<open>NaN\<close> when
      it does not start with a number\<close>
  "content_length res =
     (case headers_get res ''content-length'' of
        None \<Rightarrow> JNull
      | Some c \<Rightarrow> if c = [] then JNull else parseInt10 c)"

definition terminal :: "probe_result \<Rightarrow> bool" where
  \<comment> \<open>exactly one of \<open>status\<close> and \<open>error\<close> is set\<close>
  "terminal r = ((status r = None) \<noteq> (error r = None))"

definition reply_report :: "reply \<Rightarrow> report option" where
  "reply_report rp = (case rp of Status200 rep \<Rightarrow> Some rep | _ \<Rightarrow> None)"

function chunks :: "nat \<Rightarrow> 'a list \<Rightarrow> 'a list list" where
  \<comment> \<open>a list cut into consecutive batches of \<open>n\<close> elements, the last one possibly shorter\<close>
  "chunks n xs = (if n = 0 \<or> xs = [] then [] else take n xs # chunks n (drop n xs))"
  by pat_completeness auto
termination
  by (relation "measure (\<lambda>(n, xs). length xs)") auto

declare chunks.simps [simp del]

fun probe_batches :: "env \<Rightarrow> item list list \<Rightarrow> event list \<Rightarrow> probe_result list \<times> event list" where
  \<comment> \<open>the batches probed one after the other, their results concatenated\<close>
  "probe_batches env [] log = ([], log)"
| "probe_batches env (b # bs) log =
     (let (rs, log1) = probe_chunk env b log;
          (rss, log2) = probe_batches env bs log1
      in (rs @ rss, log2))"

definition report_urls :: "reply \<Rightarrow> string list" where
  \<comment> \<open>the URLs of the report's \<open>resources\<close>, in order\<close>
  "report_urls rp = (case rp of Status200 rep \<Rightarrow> map url (resources rep) | _ \<Rightarrow> [])"

definition crawl_event :: "env \<Rightarrow> event \<Rightarrow> bool" where
  \<comment> \<open>an event of the style sheet crawl: a GET with the crawl's timeout for a URL the
      filter lets through, or the reading of a body\<close>
  "crawl_event env e =
     (case e of
        Fetch m u t \<Rightarrow> m = GET \<and> t = CSS_FETCH_TIMEOUT \<and> \<not> isBlockedUrl env u
      | ReadBody u \<Rightarrow> True)"

definition unblocked_map :: "env \<Rightarrow> cmap \<Rightarrow> bool" where
  \<comment> \<open>every entry is keyed by its own URL, passed the filter and has an initiator
      that discovery gives\<close>
  "unblocked_map env m =
     list_all (\<lambda>(k, it). \<not> isBlockedUrl env k \<and> i_url it = k \<and> i_initiator it \<noteq> CssUrl
                           \<and> i_initiator it \<noteq> Document) m"

definition follow_up :: "item list \<Rightarrow> event \<Rightarrow> bool" where
  \<comment> \<open>what a probe of the batch does after its HEAD request: a GET request with the
      probes' timeout, or the reading of a body, for the URL of a candidate of the batch\<close>
  "follow_up b e =
     (case e of
        Fetch m u t \<Rightarrow> m = GET \<and> t = TIMEOUT \<and> u \<in> set (map i_url b)
      | ReadBody u \<Rightarrow> u \<in> set (map i_url b))"

definition batch_heads :: "item list \<Rightarrow> event list" where
  \<comment> \<open>the HEAD requests for the candidates of a batch, in the batch's order\<close>
  "batch_heads b = map (\<lambda>it. Fetch HEAD (i_url it) TIMEOUT) b"

definition task_ok :: "item \<Rightarrow> task \<Rightarrow> bool" where
  \<comment> \<open>the task is a probe of the item's URL, with neither status nor error while it waits
      for a request, with a status and no error while it waits for a body, and with exactly
      one of them at its end\<close>
  "task_ok it t =
     (url (task_result t) = i_url it \<and>
      (case t of
         AwaitFetch r start outcome \<Rightarrow> status r = None \<and> error r = None
       | AwaitBody r start res \<Rightarrow> status r \<noteq> None \<and> error r = None
       | Settled r \<Rightarrow> terminal r))"

definition head_final :: "env \<Rightarrow> item \<Rightarrow> bool" where
  \<comment> \<open>whenever it is sent, the HEAD request for the item is not answered with status
      405 or 501\<close>
  "head_final env it =
     (\<forall>l. case net env l HEAD (i_url it) TIMEOUT of
            Inl e \<Rightarrow> True
          | Inr res \<Rightarrow> r_status res \<noteq> 405 \<and> r_status res \<noteq> 501)"

definition quiet :: "task \<Rightarrow> bool" where
  \<comment> \<open>the task sends no request and reads no body any more\<close>
  "quiet t =
     (case t of
        AwaitFetch r start outcome \<Rightarrow>
          methodTried r = Some HEAD
          \<and> (case outcome of
                Inl e \<Rightarrow> True
              | Inr res \<Rightarrow> r_status res \<noteq> 405 \<and> r_status res \<noteq> 501)
      | AwaitBody r start res \<Rightarrow> False
      | Settled r \<Rightarrow> True)"

section \<open>Properties\<close>

lemma startsWith_prefix: "startsWith s p = prefix p s"
  by (auto simp: startsWith_def prefix_def) (metis append_eq_conv_conj)

lemma endsWith_suffix: "endsWith s p = suffix p s"
proof
  assume "endsWith s p"
  then have "drop (length s - length p) s = p" by (simp add: endsWith_def)
  then show "suffix p s" by (metis suffix_drop)
next
  assume "suffix p s"
  then obtain q where "s = q @ p" by (auto simp: suffix_def)
  then show "endsWith s p" by (simp add: endsWith_def)
qed

text \<open>
  C4. isBlockedUrl answers true exactly when the string does not parse as a URL, or its
  scheme is neither http nor https, or its lower-cased host name is localhost, 127.0.0.1
  or ::1, or ends in .local, or starts with 10., 127., 192.168. or 169.254.; on every
  other URL it answers false. It is a function of the string and the parser alone.
\<close>

theorem isBlockedUrl_iff:
  "isBlockedUrl env u =
     (case newURL env u None of
        None \<Rightarrow> True
      | Some pu \<Rightarrow>
          (protocol pu \<noteq> ''http:'' \<and> protocol pu \<noteq> ''https:'')
          \<or> toLowerCase (hostname pu) = ''localhost''
          \<or> toLowerCase (hostname pu) = ''127.0.0.1''
          \<or> toLowerCase (hostname pu) = ''::1''
          \<or> suffix ''.local'' (toLowerCase (hostname pu))
          \<or> prefix ''10.'' (toLowerCase (hostname pu))
          \<or> prefix ''127.'' (toLowerCase (hostname pu))
          \<or> prefix ''192.168.'' (toLowerCase (hostname pu))
          \<or> prefix ''169.254.'' (toLowerCase (hostname pu)))"
  unfolding isBlockedUrl_def private_re_test_def array_includes_def Let_def
    startsWith_prefix endsWith_suffix
  by (auto split: option.split)

lemma ex_parse_examples:
  "newURL ex_env ''http://printer.local/x'' None
     = Some \<lparr>protocol = ''http:'', hostname = ''printer.local'',
              href = ''http://printer.local/x''\<rparr>"
  "newURL ex_env ''https://cdn.example.com/x'' None
     = Some \<lparr>protocol = ''https:'', hostname = ''cdn.example.com'',
              href = ''https://cdn.example.com/x''\<rparr>"
  "newURL ex_env ''http://10.0.0.5/x'' None
     = Some \<lparr>protocol = ''http:'', hostname = ''10.0.0.5'', href = ''http://10.0.0.5/x''\<rparr>"
  "newURL ex_env ''not a url'' None = None"
  by code_simp+

lemma ex_host_facts:
  "toLowerCase ''printer.local'' = ''printer.local''"
  "toLowerCase ''cdn.example.com'' = ''cdn.example.com''"
  "toLowerCase ''10.0.0.5'' = ''10.0.0.5''"
  "suffix ''.local'' ''printer.local''"
  "\<not> suffix ''.local'' ''cdn.example.com''"
  "\<not> prefix ''10.'' ''cdn.example.com''"
  "\<not> prefix ''127.'' ''cdn.example.com''"
  "\<not> prefix ''192.168.'' ''cdn.example.com''"
  "\<not> prefix ''169.254.'' ''cdn.example.com''"
  "prefix ''10.'' ''10.0.0.5''"
  by code_simp+

theorem isBlockedUrl_iff_witness:
  "isBlockedUrl ex_env ''http://printer.local/x''
   \<and> isBlockedUrl ex_env ''http://10.0.0.5/x''
   \<and> isBlockedUrl ex_env ''not a url''
   \<and> \<not> isBlockedUrl ex_env ''https://cdn.example.com/x''"
  using isBlockedUrl_iff [of ex_env "''http://printer.local/x''"]
    isBlockedUrl_iff [of ex_env "''http://10.0.0.5/x''"]
    isBlockedUrl_iff [of ex_env "''not a url''"]
    isBlockedUrl_iff [of ex_env "''https://cdn.example.com/x''"]
  by (simp add: ex_parse_examples ex_host_facts)

subsection \<open>The probe of one URL\<close>

lemma record_response_fields:
  "status (fst (record_response r res log)) = Some (r_status res)"
  "ok (fst (record_response r res log)) = r_ok res"
  "error (fst (record_response r res log)) = error r"
  "methodTried (fst (record_response r res log)) = methodTried r"
  "url (fst (record_response r res log)) = url r"
  "timeMs (fst (record_response r res log)) = timeMs r"
  "initiator (fst (record_response r res log)) = initiator r"
  "contentType (fst (record_response r res log)) =
     (if truthy (headers_get res ''content-type'') then headers_get res ''content-type'' else None)"
  by (simp_all add: record_response_def Let_def split: option.split sum.split)

lemma record_response_log:
  "snd (record_response r res log) = log \<or> snd (record_response r res log) = log @ [ReadBody (url r)]"
  by (simp add: record_response_def Let_def split: option.split sum.split)

lemma record_response_log_HEAD:
  "methodTried r = Some HEAD \<Longrightarrow> snd (record_response r res log) = log"
  by (simp add: record_response_def Let_def split: option.split sum.split)

lemma probeResource_unfold:
  "probeResource env u log =
     (case net env log HEAD u TIMEOUT of
        Inl e \<Rightarrow>
          ((initial_result u)\<lparr>methodTried := Some HEAD, error := Some (err_text e),
             timeMs := Some (now env (log @ [Fetch HEAD u TIMEOUT]) - now env log)\<rparr>,
           log @ [Fetch HEAD u TIMEOUT])
      | Inr res \<Rightarrow>
          if r_status res = 405 \<or> r_status res = 501 then
            (case net env (log @ [Fetch HEAD u TIMEOUT]) GET u TIMEOUT of
               Inl e \<Rightarrow>
                 ((initial_result u)\<lparr>methodTried := Some GET, error := Some (err_text e),
                    timeMs := Some (now env (log @ [Fetch HEAD u TIMEOUT, Fetch GET u TIMEOUT])
                                    - now env log)\<rparr>,
                  log @ [Fetch HEAD u TIMEOUT, Fetch GET u TIMEOUT])
             | Inr res' \<Rightarrow>
                 (let p = record_response ((initial_result u)\<lparr>methodTried := Some GET\<rparr>) res'
                            (log @ [Fetch HEAD u TIMEOUT, Fetch GET u TIMEOUT])
                  in ((fst p)\<lparr>timeMs := Some (now env (snd p) - now env log)\<rparr>, snd p)))
          else
            (let p = record_response ((initial_result u)\<lparr>methodTried := Some HEAD\<rparr>) res
                       (log @ [Fetch HEAD u TIMEOUT])
             in ((fst p)\<lparr>timeMs := Some (now env (snd p) - now env log)\<rparr>, snd p)))"
  by (simp add: probeResource_def probe_try_def fetchWithTimeout_def initial_result_def Let_def
      split: sum.split prod.split)

lemma requests_record_response:
  "requests (snd (record_response r res log)) = requests log"
  using record_response_log [of r res log] by (auto simp: requests_def)

lemma probe_requests:
  "requests (snd (probeResource env u log)) =
     requests log @
       (case net env log HEAD u TIMEOUT of
          Inl e \<Rightarrow> [Fetch HEAD u TIMEOUT]
        | Inr res \<Rightarrow>
            if r_status res = 405 \<or> r_status res = 501
            then [Fetch HEAD u TIMEOUT, Fetch GET u TIMEOUT]
            else [Fetch HEAD u TIMEOUT])"
  by (simp add: probeResource_unfold Let_def requests_record_response split: sum.split)
     (simp add: requests_def)

text \<open>
  C8. When the HEAD request of a probe is answered with status 405 or 501, the probe
  sends exactly one more request, a GET for the same URL with the same timeout, and the
  result is read from what that GET settles to; when the HEAD request is answered with
  any other status, the HEAD request is the only request and the result is read from
  its response.
\<close>

theorem head_fallback_once:
  assumes "net env log HEAD u TIMEOUT = Inr res"
  shows "if r_status res = 405 \<or> r_status res = 501 then
           requests (snd (probeResource env u log))
             = requests log @ [Fetch HEAD u TIMEOUT, Fetch GET u TIMEOUT]
           \<and> methodTried (fst (probeResource env u log)) = Some GET
           \<and> (case net env (log @ [Fetch HEAD u TIMEOUT]) GET u TIMEOUT of
                 Inl e \<Rightarrow>
                   status (fst (probeResource env u log)) = None
                   \<and> error (fst (probeResource env u log)) = Some (err_text e)
               | Inr res' \<Rightarrow>
                   status (fst (probeResource env u log)) = Some (r_status res')
                   \<and> ok (fst (probeResource env u log)) = r_ok res'
                   \<and> contentType (fst (probeResource env u log))
                       = (if truthy (headers_get res' ''content-type'')
                          then headers_get res' ''content-type'' else None)
                   \<and> error (fst (probeResource env u log)) = None)
         else
           requests (snd (probeResource env u log)) = requests log @ [Fetch HEAD u TIMEOUT]
           \<and> methodTried (fst (probeResource env u log)) = Some HEAD
           \<and> status (fst (probeResource env u log)) = Some (r_status res)
           \<and> ok (fst (probeResource env u log)) = r_ok res"
proof (cases "r_status res = 405 \<or> r_status res = 501")
  case True
  have req: "requests (snd (probeResource env u log))
             = requests log @ [Fetch HEAD u TIMEOUT, Fetch GET u TIMEOUT]"
    using assms True by (simp add: probe_requests)
  show ?thesis
  proof (cases "net env (log @ [Fetch HEAD u TIMEOUT]) GET u TIMEOUT")
    case (Inl e)
    with assms True req show ?thesis
      by (simp add: probeResource_unfold initial_result_def)
  next
    case (Inr res')
    with assms True req show ?thesis
      by (simp add: probeResource_unfold Let_def record_response_fields initial_result_def)
  qed
next
  case False
  have req: "requests (snd (probeResource env u log)) = requests log @ [Fetch HEAD u TIMEOUT]"
    using assms False by (simp add: probe_requests)
  from assms False req show ?thesis
    by (simp add: probeResource_unfold Let_def record_response_fields)
qed

lemma ex_net_nohead:
  "net ex_env log HEAD ''https://example.com/nohead.png'' t = Inr (ex_response 405 [] (Inr []))"
  "net ex_env log GET ''https://example.com/nohead.png'' t
     = Inr (ex_response 200 [(''content-type'', ''image/png'')] (Inr ''0123456789''))"
  by (simp_all add: ex_env_def ex_net_def)

lemma ex_net_plain:
  "net ex_env log HEAD ''https://example.com/plain.png'' t
     = Inr (ex_response 200 [(''content-type'', ''image/png'')] (Inr []))"
  by (simp add: ex_env_def ex_net_def)

theorem head_fallback_once_witness:
  "requests (snd (probeResource ex_env ''https://example.com/nohead.png'' []))
     = [Fetch HEAD ''https://example.com/nohead.png'' 20000,
        Fetch GET ''https://example.com/nohead.png'' 20000]
   \<and> methodTried (fst (probeResource ex_env ''https://example.com/nohead.png'' [])) = Some GET
   \<and> status (fst (probeResource ex_env ''https://example.com/nohead.png'' [])) = Some 200
   \<and> requests (snd (probeResource ex_env ''https://example.com/plain.png'' []))
     = [Fetch HEAD ''https://example.com/plain.png'' 20000]
   \<and> methodTried (fst (probeResource ex_env ''https://example.com/plain.png'' [])) = Some HEAD
   \<and> status (fst (probeResource ex_env ''https://example.com/plain.png'' [])) = Some 200"
  using head_fallback_once [OF ex_net_nohead(1), of "[]"]
        head_fallback_once [OF ex_net_plain, of "[]"]
  by (simp add: ex_net_nohead ex_response_def requests_def TIMEOUT_def)

subsection \<open>The probing loop\<close>

lemma probeResource_url: "url (fst (probeResource env u log)) = u"
  by (simp add: probeResource_unfold Let_def record_response_fields initial_result_def
      split: sum.split)

lemma probeResource_terminal: "terminal (fst (probeResource env u log))"
  by (simp add: terminal_def probeResource_unfold Let_def record_response_fields
      initial_result_def split: sum.split)


lemma probe_item_fields:
  "url (fst (probe_item env it log)) = i_url it"
  "initiator (fst (probe_item env it log)) = Some (i_initiator it)"
  "terminal (fst (probe_item env it log))"
  using probeResource_url [of env "i_url it" log] probeResource_terminal [of env "i_url it" log]
  by (cases "probeResource env (i_url it) log"; simp add: probe_item_def terminal_def)+

text \<open>What a probe writes into its result at each of its steps.\<close>

lemma record_headers_fields:
  "status (record_headers r res) = Some (r_status res)"
  "ok (record_headers r res) = r_ok res"
  "error (record_headers r res) = error r"
  "methodTried (record_headers r res) = methodTried r"
  "url (record_headers r res) = url r"
  "timeMs (record_headers r res) = timeMs r"
  "initiator (record_headers r res) = initiator r"
  "contentType (record_headers r res) =
     (if truthy (headers_get res ''content-type'') then headers_get res ''content-type'' else None)"
  "size' (record_headers r res) =
     (case headers_get res ''content-length'' of
        None \<Rightarrow> size' r
      | Some c \<Rightarrow> if c \<noteq> [] then parseInt10 c else size' r)"
  by (simp_all add: record_headers_def Let_def split: option.split)

lemma record_body_fields:
  "status (record_body r res) = status r"
  "ok (record_body r res) = ok r"
  "error (record_body r res) = error r"
  "methodTried (record_body r res) = methodTried r"
  "url (record_body r res) = url r"
  "timeMs (record_body r res) = timeMs r"
  "initiator (record_body r res) = initiator r"
  "contentType (record_body r res) = contentType r"
  by (simp_all add: record_body_def split: sum.split)

lemma record_response_steps:
  "record_response r res log =
     (if size_falsy_or_nan (size' (record_headers r res)) \<and> methodTried r = Some GET
      then (record_body (record_headers r res) res, log @ [ReadBody (url r)])
      else (record_headers r res, log))"
  by (simp add: record_response_def record_headers_def record_body_def Let_def
      split: option.split sum.split)

text \<open>The probes of a batch, each at one of its \<open>await\<close>s.\<close>

lemma task_resume_ok: "task_ok it t \<Longrightarrow> task_ok it (fst (task_resume env t log))"
proof (cases t)
  case (AwaitFetch r start outcome)
  assume "task_ok it t"
  with AwaitFetch show ?thesis
    by (auto simp: task_ok_def task_resume_def task_result_def terminal_def Let_def
        fetchWithTimeout_def record_headers_fields split: sum.split)
next
  case (AwaitBody r start res)
  assume "task_ok it t"
  with AwaitBody show ?thesis
    by (simp add: task_ok_def task_resume_def task_result_def terminal_def record_body_fields)
next
  case (Settled r)
  assume "task_ok it t"
  with Settled show ?thesis by (simp add: task_resume_def)
qed

lemma task_resume_log:
  assumes "task_ok it t"
  shows "\<exists>tl. snd (task_resume env t log) = log @ tl \<and> list_all (follow_up [it]) tl"
proof (cases t)
  case (AwaitFetch r start outcome)
  with assms show ?thesis
    by (auto simp: task_ok_def task_resume_def task_result_def Let_def fetchWithTimeout_def
        follow_up_def record_headers_fields split: sum.split)
next
  case (AwaitBody r start res)
  then show ?thesis by (simp add: task_resume_def)
next
  case (Settled r)
  then show ?thesis by (simp add: task_resume_def)
qed

lemma follow_up_mono: "set b \<subseteq> set b' \<Longrightarrow> follow_up b e \<Longrightarrow> follow_up b' e"
  by (cases e) (auto simp: follow_up_def)

lemma task_start_ok: "task_ok it (fst (task_start env it log))"
  by (simp add: task_start_def Let_def fetchWithTimeout_def task_ok_def task_result_def
      initial_result_def)

lemma task_start_log: "snd (task_start env it log) = log @ [Fetch HEAD (i_url it) TIMEOUT]"
  by (simp add: task_start_def Let_def fetchWithTimeout_def initial_result_def)

lemma start_all_props:
  "list_all2 task_ok its (fst (start_all env its log))
   \<and> snd (start_all env its log) = log @ batch_heads its"
proof (induction its arbitrary: log)
  case Nil
  show ?case by (simp add: batch_heads_def)
next
  case (Cons it its)
  show ?case
    using Cons.IH [of "snd (task_start env it log)"] task_start_ok [of it env log]
    by (simp add: case_prod_unfold Let_def task_start_log batch_heads_def)
qed

lemma run_batch_done:
  "list_all is_settled ts \<Longrightarrow> run_batch env ts log = (ts, log)"
  by (subst run_batch.simps) (simp add: Let_def filter_empty_conv list_all_length)

lemma run_batch_props:
  assumes "list_all2 task_ok its ts"
  shows "list_all2 task_ok its (fst (run_batch env ts log))
         \<and> list_all is_settled (fst (run_batch env ts log))
         \<and> (\<exists>tl. snd (run_batch env ts log) = log @ tl \<and> list_all (follow_up its) tl)"
  using assms
proof (induction env ts log rule: run_batch.induct)
  case (1 env ts log)
  let ?pending = "filter (\<lambda>i. \<not> is_settled (ts ! i)) [0 ..< length ts]"
  show ?case
  proof (cases "?pending = []")
    case True
    then have "\<forall>i < length ts. is_settled (ts ! i)"
      by (auto simp: filter_empty_conv)
    then have "list_all is_settled ts"
      by (simp add: list_all_length)
    with "1.prems" show ?thesis
      by (simp add: run_batch_done)
  next
    case False
    let ?i = "?pending ! (sched env log ?pending mod length ?pending)"
    let ?p = "task_resume env (ts ! ?i) log"
    from False have "?i \<in> set ?pending" by (intro nth_mem) simp
    then have il: "?i < length ts" by auto
    from "1.prems" have len: "length its = length ts"
      by (rule list_all2_lengthD)
    have oki: "task_ok (its ! ?i) (ts ! ?i)"
      using "1.prems" il by (simp add: list_all2_conv_all_nth)
    have step: "run_batch env ts log = run_batch env (ts[?i := fst ?p]) (snd ?p)"
      using False by (subst run_batch.simps) (simp add: Let_def case_prod_unfold)
    have ok: "list_all2 task_ok its (ts[?i := fst ?p])"
      using "1.prems" il task_resume_ok
      by (auto simp: list_all2_conv_all_nth nth_list_update)
    have ih: "list_all2 task_ok its (fst (run_batch env (ts[?i := fst ?p]) (snd ?p)))
         \<and> list_all is_settled (fst (run_batch env (ts[?i := fst ?p]) (snd ?p)))
         \<and> (\<exists>tl. snd (run_batch env (ts[?i := fst ?p]) (snd ?p)) = snd ?p @ tl
                \<and> list_all (follow_up its) tl)"
      using "1.IH" [OF refl False refl refl prod.collapse ok] .
    obtain t1 where t1: "snd ?p = log @ t1" "list_all (follow_up [its ! ?i]) t1"
      using task_resume_log [OF oki] by blast
    have "set [its ! ?i] \<subseteq> set its"
      using il len by simp
    then have "list_all (follow_up its) t1"
      using t1(2) follow_up_mono [of "[its ! ?i]" its] by (auto simp: list_all_iff)
    with ih t1(1) show ?thesis
      unfolding step by auto
  qed
qed

lemma settled_result_terminal:
  "task_ok it t \<Longrightarrow> is_settled t \<Longrightarrow>
     url (task_result t) = i_url it \<and> terminal (task_result t)"
  by (cases t) (simp_all add: task_ok_def is_settled_def task_result_def)

lemma probe_chunk_unfold:
  "probe_chunk env chunk log =
     (map (\<lambda>(it, t). (task_result t)\<lparr>initiator := Some (i_initiator it)\<rparr>)
        (zip chunk (fst (run_batch env (fst (start_all env chunk log)) (log @ batch_heads chunk)))),
      snd (run_batch env (fst (start_all env chunk log)) (log @ batch_heads chunk)))"
  using start_all_props [of chunk env log]
  by (simp add: probe_chunk_def case_prod_unfold Let_def)

lemma probe_chunk_results:
  "length (fst (probe_chunk env its log)) = length its"
  "map url (fst (probe_chunk env its log)) = map i_url its"
  "map initiator (fst (probe_chunk env its log)) = map (\<lambda>p. Some (i_initiator p)) its"
  "list_all terminal (fst (probe_chunk env its log))"
proof -
  let ?ts = "fst (run_batch env (fst (start_all env its log)) (log @ batch_heads its))"
  have ok: "list_all2 task_ok its ?ts" and st: "list_all is_settled ?ts"
    using run_batch_props [of its "fst (start_all env its log)" env "log @ batch_heads its"]
      start_all_props [of its env log]
    by simp_all
  then have len: "length ?ts = length its"
    by (simp add: list_all2_lengthD)
  have each: "url (task_result (?ts ! j)) = i_url (its ! j) \<and> terminal (task_result (?ts ! j))"
    if "j < length its" for j
    using that ok st len settled_result_terminal [of "its ! j" "?ts ! j"]
    by (simp add: list_all2_conv_all_nth list_all_length)
  show "length (fst (probe_chunk env its log)) = length its"
    by (simp add: probe_chunk_unfold len)
  show "map url (fst (probe_chunk env its log)) = map i_url its"
    using each by (intro nth_equalityI) (simp_all add: probe_chunk_unfold len)
  show "map initiator (fst (probe_chunk env its log)) = map (\<lambda>p. Some (i_initiator p)) its"
    by (intro nth_equalityI) (simp_all add: probe_chunk_unfold len)
  show "list_all terminal (fst (probe_chunk env its log))"
    using each by (simp add: probe_chunk_unfold len list_all_length terminal_def)
qed

lemma probe_chunk_log:
  "\<exists>tl. snd (probe_chunk env its log) = log @ batch_heads its @ tl
        \<and> list_all (follow_up its) tl"
  using run_batch_props [of its "fst (start_all env its log)" env "log @ batch_heads its"]
    start_all_props [of its env log]
  by (auto simp: probe_chunk_unfold)




text \<open>The batches.\<close>

lemma chunks_concat: "0 < n \<Longrightarrow> concat (chunks n xs) = xs"
proof (induction n xs rule: chunks.induct)
  case (1 n xs)
  then show ?case by (subst chunks.simps) auto
qed



lemma chunks_Cons:
  "0 < n \<Longrightarrow> xs \<noteq> [] \<Longrightarrow> chunks n xs = take n xs # chunks n (drop n xs)"
  by (subst chunks.simps) simp

lemma chunks_Nil: "chunks n [] = []"
  by (subst chunks.simps) simp

lemma probe_batches_Cons:
  "probe_batches env (b # bs) log =
     (fst (probe_chunk env b log) @ fst (probe_batches env bs (snd (probe_chunk env b log))),
      snd (probe_batches env bs (snd (probe_chunk env b log))))"
  by (simp add: case_prod_unfold Let_def)

lemma loop_as_batches:
  "probe_loop env probes i results log =
     (results @ fst (probe_batches env (chunks CONCURRENCY (drop i probes)) log),
      snd (probe_batches env (chunks CONCURRENCY (drop i probes)) log))"
proof (induction env probes i results log rule: probe_loop.induct)
  case (1 env probes i results log)
  show ?case
  proof (cases "i < length probes")
    case False
    then show ?thesis by (subst probe_loop.simps) (simp add: chunks_Nil)
  next
    case True
    let ?chunk = "slice probes i (i + CONCURRENCY)"
    obtain cr log' where p: "probe_chunk env ?chunk log = (cr, log')"
      by (cases "probe_chunk env ?chunk log")
    have c: "chunks CONCURRENCY (drop i probes)
               = ?chunk # chunks CONCURRENCY (drop (i + CONCURRENCY) probes)"
      using True
      by (subst chunks_Cons) (simp_all add: CONCURRENCY_def slice_def add.commute)
    have ih: "probe_loop env probes (i + CONCURRENCY) (results @ cr) log' =
        ((results @ cr)
           @ fst (probe_batches env (chunks CONCURRENCY (drop (i + CONCURRENCY) probes)) log'),
         snd (probe_batches env (chunks CONCURRENCY (drop (i + CONCURRENCY) probes)) log'))"
      using "1.IH" [OF True refl refl p [symmetric]] .
    have "probe_loop env probes i results log
            = probe_loop env probes (i + CONCURRENCY) (results @ cr) log'"
      using True p by (subst probe_loop.simps) simp
    also note ih
    finally show ?thesis
      by (simp add: c p probe_batches_Cons del: probe_batches.simps)
  qed
qed

lemma probe_batches_results:
  "length (fst (probe_batches env bs log)) = length (concat bs)"
  "map url (fst (probe_batches env bs log)) = map i_url (concat bs)"
  "map initiator (fst (probe_batches env bs log)) = map (\<lambda>p. Some (i_initiator p)) (concat bs)"
  "list_all terminal (fst (probe_batches env bs log))"
  by (induction bs arbitrary: log;
      simp add: probe_batches_Cons probe_chunk_results del: probe_batches.simps(2))+

lemma probe_batches_log:
  "\<exists>tls. length tls = length bs
         \<and> list_all (\<lambda>(b, tl). list_all (follow_up b) tl) (zip bs tls)
         \<and> snd (probe_batches env bs log)
             = log @ concat (map (\<lambda>(b, tl). batch_heads b @ tl) (zip bs tls))"
proof (induction bs arbitrary: log)
  case Nil
  show ?case by simp
next
  case (Cons b bs)
  obtain tl where tl: "snd (probe_chunk env b log) = log @ batch_heads b @ tl"
      "list_all (follow_up b) tl"
    using probe_chunk_log by blast
  obtain tls where tls: "length tls = length bs"
      "list_all (\<lambda>(b, tl). list_all (follow_up b) tl) (zip bs tls)"
      "snd (probe_batches env bs (snd (probe_chunk env b log)))
         = snd (probe_chunk env b log)
             @ concat (map (\<lambda>(b, tl). batch_heads b @ tl) (zip bs tls))"
    using Cons.IH by blast
  have "snd (probe_batches env (b # bs) log)
          = snd (probe_batches env bs (snd (probe_chunk env b log)))"
    by (simp add: probe_batches_Cons del: probe_batches.simps(2))
  also note tls(3)
  also have "snd (probe_chunk env b log)
               @ concat (map (\<lambda>(b, tl). batch_heads b @ tl) (zip bs tls))
             = log @ concat (map (\<lambda>(b, tl). batch_heads b @ tl) (zip (b # bs) (tl # tls)))"
    by (simp add: tl(1))
  finally show ?case
    using tl(2) tls(1,2) by (intro exI [of _ "tl # tls"]) simp
qed

lemma probe_loop_results:
  "length (fst (probe_loop env probes 0 [] log)) = length probes"
  "map url (fst (probe_loop env probes 0 [] log)) = map i_url probes"
  "map initiator (fst (probe_loop env probes 0 [] log)) = map (\<lambda>p. Some (i_initiator p)) probes"
  "list_all terminal (fst (probe_loop env probes 0 [] log))"
  by (simp_all add: loop_as_batches probe_batches_results chunks_concat CONCURRENCY_def)

lemma probe_loop_first_log:
  "\<exists>tl. snd (probe_loop env (p # ps) 0 [] log) = log @ Fetch HEAD (i_url p) TIMEOUT # tl"
proof -
  let ?b = "take CONCURRENCY (p # ps)"
  let ?bs = "chunks CONCURRENCY (drop CONCURRENCY (p # ps))"
  have c: "chunks CONCURRENCY (p # ps) = ?b # ?bs"
    by (rule chunks_Cons) (simp_all add: CONCURRENCY_def)
  obtain tls where tls: "length tls = length (?b # ?bs)"
      "snd (probe_batches env (?b # ?bs) log)
         = log @ concat (map (\<lambda>(b, tl). batch_heads b @ tl) (zip (?b # ?bs) tls))"
    using probe_batches_log [where env = env and bs = "?b # ?bs" and log = log] by blast
  then obtain t ts where t: "tls = t # ts" by (cases tls) auto
  have "batch_heads ?b = Fetch HEAD (i_url p) TIMEOUT # batch_heads (take 7 ps)"
    by (simp add: batch_heads_def CONCURRENCY_def)
  then have "snd (probe_batches env (?b # ?bs) log)
      = log @ Fetch HEAD (i_url p) TIMEOUT
          # (batch_heads (take 7 ps) @ t
              @ concat (map (\<lambda>(b, tl). batch_heads b @ tl) (zip ?bs ts)))"
    unfolding tls(2) t by simp
  then show ?thesis
    by (simp only: loop_as_batches drop_0 c snd_conv) blast
qed

text \<open>Batches in which no probe goes beyond its HEAD request.\<close>

lemma task_resume_quiet:
  "quiet t \<Longrightarrow> quiet (fst (task_resume env t log)) \<and> snd (task_resume env t log) = log"
  by (cases t)
     (auto simp: quiet_def task_resume_def Let_def record_headers_fields split: sum.split)

lemma run_batch_quiet:
  "list_all quiet ts \<Longrightarrow> snd (run_batch env ts log) = log"
proof (induction env ts log rule: run_batch.induct)
  case (1 env ts log)
  let ?pending = "filter (\<lambda>i. \<not> is_settled (ts ! i)) [0 ..< length ts]"
  show ?case
  proof (cases "?pending = []")
    case True
    then show ?thesis
      by (subst run_batch.simps) (simp add: Let_def)
  next
    case False
    let ?i = "?pending ! (sched env log ?pending mod length ?pending)"
    let ?p = "task_resume env (ts ! ?i) log"
    from False have "?i \<in> set ?pending" by (intro nth_mem) simp
    then have il: "?i < length ts" by auto
    with "1.prems" have q: "quiet (ts ! ?i)"
      by (simp add: list_all_length)
    have step: "run_batch env ts log = run_batch env (ts[?i := fst ?p]) (snd ?p)"
      using False by (subst run_batch.simps) (simp add: Let_def case_prod_unfold)
    have ok: "list_all quiet (ts[?i := fst ?p])"
      using "1.prems" il task_resume_quiet [OF q, of env log]
      by (auto simp: list_all_length nth_list_update)
    have "snd (run_batch env (ts[?i := fst ?p]) (snd ?p)) = snd ?p"
      using "1.IH" [OF refl False refl refl prod.collapse ok] .
    then show ?thesis
      unfolding step using task_resume_quiet [OF q, of env log] by simp
  qed
qed

lemma start_all_quiet:
  "list_all (head_final env) its \<Longrightarrow> list_all quiet (fst (start_all env its log))"
proof (induction its arbitrary: log)
  case Nil
  show ?case by simp
next
  case (Cons it its)
  from Cons.prems have h: "case net env log HEAD (i_url it) TIMEOUT of
            Inl e \<Rightarrow> True
          | Inr res \<Rightarrow> r_status res \<noteq> 405 \<and> r_status res \<noteq> 501"
    by (simp add: head_final_def)
  have "quiet (fst (task_start env it log))"
    using h by (simp add: task_start_def Let_def fetchWithTimeout_def quiet_def
        initial_result_def)
  then show ?case
    using Cons.IH [of "snd (task_start env it log)"] Cons.prems
    by (simp add: case_prod_unfold Let_def)
qed

lemma probe_chunk_heads:
  "list_all (head_final env) its \<Longrightarrow> snd (probe_chunk env its log) = log @ batch_heads its"
  by (simp add: probe_chunk_unfold run_batch_quiet start_all_quiet)

lemma probe_batches_heads:
  "list_all (list_all (head_final env)) bs \<Longrightarrow>
     snd (probe_batches env bs log) = log @ concat (map batch_heads bs)"
  by (induction bs arbitrary: log)
     (simp_all add: probe_batches_Cons probe_chunk_heads del: probe_batches.simps(2))

lemma list_all_concat: "list_all P (concat xss) = list_all (list_all P) xss"
  by (induction xss) simp_all

lemma batch_heads_concat: "concat (map batch_heads bs) = batch_heads (concat bs)"
  by (induction bs) (simp_all add: batch_heads_def)

lemma probe_loop_heads:
  assumes "list_all (head_final env) probes"
  shows "snd (probe_loop env probes 0 [] log) = log @ batch_heads probes"
proof -
  have c: "concat (chunks CONCURRENCY probes) = probes"
    by (simp add: chunks_concat CONCURRENCY_def)
  then have "list_all (list_all (head_final env)) (chunks CONCURRENCY probes)"
    using assms list_all_concat [of "head_final env" "chunks CONCURRENCY probes"] by simp
  then have "snd (probe_loop env probes 0 [] log)
               = log @ concat (map batch_heads (chunks CONCURRENCY probes))"
    by (simp add: loop_as_batches probe_batches_heads)
  also have "concat (map batch_heads (chunks CONCURRENCY probes))
               = batch_heads (concat (chunks CONCURRENCY probes))"
    by (rule batch_heads_concat)
  finally show ?thesis by (simp add: c)
qed


lemma ex_response_sel:
  "r_status (ex_response st hs b) = st"
  "r_ok (ex_response st hs b) = (200 \<le> st \<and> st \<le> 299)"
  "r_headers (ex_response st hs b) = hs"
  "r_body (ex_response st hs b) = b"
  by (simp_all add: ex_response_def)









subsection \<open>What a probe reports\<close>

lemma final_response_HEAD:
  "final_response env u log = Some (HEAD, res) \<Longrightarrow>
     probeResource env u log =
       (let p = record_response ((initial_result u)\<lparr>methodTried := Some HEAD\<rparr>) res
                  (log @ [Fetch HEAD u TIMEOUT])
        in ((fst p)\<lparr>timeMs := Some (now env (snd p) - now env log)\<rparr>, snd p))"
  by (auto simp: final_response_def probeResource_unfold split: sum.splits if_splits)

lemma final_response_GET:
  "final_response env u log = Some (GET, res) \<Longrightarrow>
     probeResource env u log =
       (let p = record_response ((initial_result u)\<lparr>methodTried := Some GET\<rparr>) res
                  (log @ [Fetch HEAD u TIMEOUT, Fetch GET u TIMEOUT])
        in ((fst p)\<lparr>timeMs := Some (now env (snd p) - now env log)\<rparr>, snd p))"
  by (auto simp: final_response_def probeResource_unfold split: sum.splits if_splits)

lemma final_response_None:
  "final_response env u log = None \<Longrightarrow> size' (fst (probeResource env u log)) = JNull"
  by (auto simp: final_response_def probeResource_unfold initial_result_def
      split: sum.splits if_splits)

lemma size_falsy_or_nan_iff:
  "size_falsy_or_nan v = (v = JNull \<or> v = JNaN \<or> v = JNum 0)"
  by (cases v) (simp_all add: size_falsy_or_nan_def)

lemma record_headers_size:
  "size' r = JNull \<Longrightarrow> size' (record_headers r res) = content_length res"
  by (simp add: record_headers_fields content_length_def split: option.split)

lemma record_response_size:
  "size' r = JNull \<Longrightarrow>
   size' (fst (record_response r res log)) =
     (if size_falsy_or_nan (content_length res) \<and> methodTried r = Some GET
      then (case r_body res of Inl e \<Rightarrow> content_length res
                             | Inr buf \<Rightarrow> JNum (int (length buf)))
      else content_length res)"
  by (simp add: record_response_steps record_headers_size record_body_def split: sum.split)

lemma record_response_events:
  "size' r = JNull \<Longrightarrow>
   snd (record_response r res log) =
     (if size_falsy_or_nan (content_length res) \<and> methodTried r = Some GET
      then log @ [ReadBody (url r)] else log)"
  by (simp add: record_response_steps record_headers_size)

lemma size_after_response:
  assumes "final_response env u log = Some (m, res)"
  shows "size' (fst (probeResource env u log)) =
     (if size_falsy_or_nan (content_length res) \<and> m = GET
      then (case r_body res of Inl e \<Rightarrow> content_length res
                             | Inr buf \<Rightarrow> JNum (int (length buf)))
      else content_length res)"
proof (cases m)
  case HEAD
  with assms show ?thesis
    by (simp add: final_response_HEAD Let_def record_response_size initial_result_def)
next
  case GET
  with assms show ?thesis
    by (simp add: final_response_GET Let_def record_response_size initial_result_def)
qed

lemma probe_HEAD_log:
  assumes "final_response env u log = Some (HEAD, res)"
  shows "snd (probeResource env u log) = log @ [Fetch HEAD u TIMEOUT]"
  using assms
  by (simp add: final_response_HEAD Let_def record_response_log_HEAD)

lemma probe_GET_log:
  assumes "final_response env u log = Some (GET, res)"
  shows "snd (probeResource env u log) =
           log @ [Fetch HEAD u TIMEOUT, Fetch GET u TIMEOUT]
             @ (if size_falsy_or_nan (content_length res) then [ReadBody u] else [])"
  using assms
  by (simp add: final_response_GET Let_def record_response_events initial_result_def)

text \<open>
  C5, as the code has it. The header value of a response is what \<open>parseInt\<close> reads from
  its content-length header: null when the header is absent or empty, NaN when it does
  not start with a number, else the number as a double (whole numbers up to \<open>2^53\<close>
  exactly, larger ones rounded to the nearest double, Infinity from \<open>2^1024\<close> on). When a
  request of the probe fails, size is null. When the probe ends with a HEAD response,
  size is the header value, whatever it is (0 included), and no body is read. When it
  ends with a GET response, size is the header value unless that is null, NaN or 0;
  then the body is read and size is the body's byte length, or, when reading the body
  fails, still the header value.
\<close>

theorem probe_size:
  "(case final_response env u log of
      None \<Rightarrow> size' (fst (probeResource env u log)) = JNull
    | Some (m, res) \<Rightarrow>
        size' (fst (probeResource env u log)) =
          (case m of
             HEAD \<Rightarrow> content_length res
           | GET \<Rightarrow>
               if content_length res = JNull \<or> content_length res = JNaN
                  \<or> content_length res = JNum 0
               then (case r_body res of
                       Inr buf \<Rightarrow> JNum (int (length buf))
                     | Inl e \<Rightarrow> content_length res)
               else content_length res)
        \<and> snd (probeResource env u log) =
            log @ (case m of
                     HEAD \<Rightarrow> [Fetch HEAD u TIMEOUT]
                   | GET \<Rightarrow>
                       [Fetch HEAD u TIMEOUT, Fetch GET u TIMEOUT]
                         @ (if content_length res = JNull \<or> content_length res = JNaN
                               \<or> content_length res = JNum 0
                            then [ReadBody u] else [])))"
proof (cases "final_response env u log")
  case None
  then show ?thesis by (simp add: final_response_None)
next
  case (Some mr)
  obtain m res where mr: "mr = (m, res)" by (cases mr)
  show ?thesis
  proof (cases m)
    case HEAD
    with Some mr show ?thesis
      using size_after_response [of env u log HEAD res] probe_HEAD_log [of env u log res]
      by simp
  next
    case GET
    with Some mr show ?thesis
      using size_after_response [of env u log GET res] probe_GET_log [of env u log res]
      by (simp add: size_falsy_or_nan_iff split: sum.split)
  qed
qed

text \<open>The numbers \<open>parseInt\<close> gives.\<close>

lemma bit_length_upper: "n < 2 ^ bit_length n"
proof (induction n rule: bit_length.induct)
  case (1 n)
  show ?case
  proof (cases "n = 0")
    case True
    then show ?thesis by (subst bit_length.simps) simp
  next
    case False
    then have "n div 2 < 2 ^ bit_length (n div 2)" by (rule "1.IH")
    then have "n < 2 * 2 ^ bit_length (n div 2)" by simp
    with False show ?thesis by (subst bit_length.simps) simp
  qed
qed

lemma bit_length_lower: "n \<noteq> 0 \<Longrightarrow> 2 ^ (bit_length n - 1) \<le> n"
proof (induction n rule: bit_length.induct)
  case (1 n)
  show ?case
  proof (cases "n div 2 = 0")
    case True
    with "1.prems" have "n = 1" by (simp add: div_eq_0_iff) 
    then show ?thesis by (simp add: bit_length.simps)
  next
    case False
    with "1.IH" "1.prems" have ih: "2 ^ (bit_length (n div 2) - 1) \<le> n div 2" by simp
    from False have "bit_length (n div 2) \<noteq> 0" by (subst bit_length.simps) simp
    then have "2 ^ (bit_length n - 1) = 2 * 2 ^ (bit_length (n div 2) - 1)"
      using "1.prems" by (subst bit_length.simps) (simp flip: power_Suc)
    also have "\<dots> \<le> 2 * (n div 2)" using ih by simp
    also have "\<dots> \<le> n" by simp
    finally show ?thesis .
  qed
qed

lemma round_double_small: "n < 2 ^ 53 \<Longrightarrow> round_double n = Some n"
  by (simp add: round_double_def)

lemma mantissa_bound:
  assumes "2 ^ j \<le> n" and "53 \<le> j" and "n div 2 ^ (bit_length n - 53) \<le> q'"
  shows "(2::nat) ^ j \<le> q' * 2 ^ (bit_length n - 53)"
proof -
  let ?b = "bit_length n"
  let ?k = "?b - 53"
  have "0 < (2::nat) ^ j" by simp
  with assms(1) have n0: "n \<noteq> 0" by linarith
  have "(2::nat) ^ j < 2 ^ ?b"
    using assms(1) bit_length_upper [of n] by (rule le_less_trans)
  then have jb: "j < ?b" by (rule power_less_imp_less_exp [rotated]) simp
  with assms(2) have kb: "?b - 1 = 52 + ?k" by simp
  have d1: "(2::nat) ^ (?b - 1) div 2 ^ ?k \<le> n div 2 ^ ?k"
    using bit_length_lower [OF n0] by (rule div_le_mono)
  have d2: "(2::nat) ^ (?b - 1) div 2 ^ ?k = 2 ^ 52"
    unfolding kb by (simp only: power_add nonzero_mult_div_cancel_right power_not_zero
        zero_neq_numeral not_False_eq_True)
  have "(2::nat) ^ 52 \<le> n div 2 ^ ?k"
    using d1 unfolding d2 .
  then have "(2::nat) ^ 52 \<le> q'"
    using assms(3) by (rule le_trans)
  then have m1: "(2::nat) ^ 52 * 2 ^ ?k \<le> q' * 2 ^ ?k"
    by (rule mult_le_mono1)
  have m2: "(2::nat) ^ 52 * 2 ^ ?k = 2 ^ (?b - 1)"
    unfolding kb by (simp only: power_add)
  have "(2::nat) ^ j \<le> 2 ^ (?b - 1)"
    using jb by (intro power_increasing) simp_all
  also have "\<dots> \<le> q' * 2 ^ ?k"
    using m1 unfolding m2 .
  finally show ?thesis .
qed

lemma round_double_Infinity:
  assumes "2 ^ 1024 \<le> n"
  shows "round_double n = None"
proof -
  have big: "\<not> n < 2 ^ 53"
  proof
    assume "n < 2 ^ 53"
    with assms have "(2::nat) ^ 1024 < 2 ^ 53" by (rule le_less_trans)
    then have "(1024::nat) < 53" by (rule power_less_imp_less_exp [rotated]) simp
    then show False by simp
  qed
  have a: "(2::nat) ^ 1024 \<le> (n div 2 ^ (bit_length n - 53) + 1) * 2 ^ (bit_length n - 53)"
    by (rule mantissa_bound [OF assms]) simp_all
  have b: "(2::nat) ^ 1024 \<le> (n div 2 ^ (bit_length n - 53)) * 2 ^ (bit_length n - 53)"
    by (rule mantissa_bound [OF assms]) simp_all
  show ?thesis
    unfolding round_double_def Let_def
    using big a b by (simp only: if_False if_True split: if_split) simp
qed

lemma parseInt10_zeros:
  "parseInt10 (CHR ''1'' # replicate n (CHR ''0'')) =
     (case round_double (10 ^ n) of None \<Rightarrow> JInfinity | Some d \<Rightarrow> JNum (int d))"
proof -
  have d: "takeWhile is_digit (replicate n (CHR ''0'')) = replicate n (CHR ''0'')"
    by (induction n) (simp_all add: is_digit_def)
  have f: "foldl (\<lambda>a c. 10 * a + ((of_char c :: nat) - 48)) a (replicate n (CHR ''0''))
             = a * 10 ^ n" for a
    by (induction n arbitrary: a) simp_all
  show ?thesis
    by (simp add: parseInt10_def is_space_def is_digit_def d f split: option.split)
qed

lemma ex_parseInt10:
  "parseInt10 ''42'' = JNum 42"
  "parseInt10 ''0'' = JNum 0"
  "parseInt10 ''abc'' = JNaN"
  "parseInt10 ''9007199254740993'' = JNum 9007199254740992"
  "parseInt10 (CHR ''1'' # replicate 309 (CHR ''0'')) = JInfinity"
proof -
  show "parseInt10 ''42'' = JNum 42"
    by (simp add: parseInt10_def is_space_def is_digit_def round_double_def)
  show "parseInt10 ''0'' = JNum 0"
    by (simp add: parseInt10_def is_space_def is_digit_def round_double_def)
  show "parseInt10 ''abc'' = JNaN"
    by (simp add: parseInt10_def is_space_def is_digit_def)
  show "parseInt10 ''9007199254740993'' = JNum 9007199254740992"
    by (simp add: parseInt10_def is_space_def is_digit_def round_double_def bit_length.simps
        Let_def)
  have "(2::nat) ^ 1024 \<le> 10 ^ 309" by simp
  then have "round_double (10 ^ 309) = None" by (rule round_double_Infinity)
  then show "parseInt10 (CHR ''1'' # replicate 309 (CHR ''0'')) = JInfinity"
    by (simp only: parseInt10_zeros option.case)
qed

lemma ex_net_cut:
  "net ex_env log HEAD ''https://example.com/cut.png'' t = Inr (ex_response 501 [] (Inr []))"
  "net ex_env log GET ''https://example.com/cut.png'' t
     = Inr (ex_response 200 [(''content-type'', ''image/png'')]
              (Inl \<lparr>message = ''terminated'', as_string = ''TypeError: terminated''\<rparr>))"
  by (simp_all add: ex_env_def ex_net_def)

lemma ex_net_zero:
  "net ex_env log HEAD ''https://example.com/zero.png'' t = Inr (ex_response 405 [] (Inr []))"
  "net ex_env log GET ''https://example.com/zero.png'' t
     = Inr (ex_response 200 [(''content-length'', ''0'')] (Inr ''0123456789''))"
  by (simp_all add: ex_env_def ex_net_def)

lemma ex_net_other:
  "net ex_env log HEAD ''https://example.com/a.png'' t
     = Inr (ex_response 200 [(''content-type'', ''image/png''), (''content-length'', ''42'')]
              (Inr []))"
  "net ex_env log HEAD ''https://example.com/odd.png'' t
     = Inr (ex_response 200 [(''content-length'', ''abc'')] (Inr []))"
  "net ex_env log HEAD ''https://example.com/big.png'' t
     = Inr (ex_response 200 [(''content-length'', ''9007199254740993'')] (Inr []))"
  "net ex_env log HEAD ''https://example.com/huge.png'' t
     = Inr (ex_response 200 [(''content-length'', CHR ''1'' # replicate 309 (CHR ''0''))]
              (Inr []))"
  by (simp_all add: ex_env_def ex_net_def ex_usual_def)

lemma ex_net_down:
  "net ex_env log m ''https://example.com/down.png'' t
     = Inl \<lparr>message = ''fetch failed'', as_string = ''TypeError: fetch failed''\<rparr>"
  by (simp add: ex_env_def ex_net_def)

lemma ex_final_response:
  "final_response ex_env ''https://example.com/a.png'' [] =
     Some (HEAD, ex_response 200 [(''content-type'', ''image/png''), (''content-length'', ''42'')]
              (Inr []))"
  "final_response ex_env ''https://example.com/plain.png'' [] =
     Some (HEAD, ex_response 200 [(''content-type'', ''image/png'')] (Inr []))"
  "final_response ex_env ''https://example.com/nohead.png'' [] =
     Some (GET, ex_response 200 [(''content-type'', ''image/png'')] (Inr ''0123456789''))"
  "final_response ex_env ''https://example.com/cut.png'' [] =
     Some (GET, ex_response 200 [(''content-type'', ''image/png'')]
              (Inl \<lparr>message = ''terminated'', as_string = ''TypeError: terminated''\<rparr>))"
  "final_response ex_env ''https://example.com/zero.png'' [] =
     Some (GET, ex_response 200 [(''content-length'', ''0'')] (Inr ''0123456789''))"
  "final_response ex_env ''https://example.com/odd.png'' [] =
     Some (HEAD, ex_response 200 [(''content-length'', ''abc'')] (Inr []))"
  "final_response ex_env ''https://example.com/big.png'' [] =
     Some (HEAD, ex_response 200 [(''content-length'', ''9007199254740993'')] (Inr []))"
  "final_response ex_env ''https://example.com/huge.png'' [] =
     Some (HEAD, ex_response 200 [(''content-length'', CHR ''1'' # replicate 309 (CHR ''0''))]
              (Inr []))"
  "final_response ex_env ''https://example.com/down.png'' [] = None"
  by (simp_all add: final_response_def ex_net_other ex_net_plain ex_net_nohead ex_net_cut
      ex_net_zero ex_net_down ex_response_sel)

lemma ex_content_length:
  "content_length (ex_response 200 [(''content-type'', ''image/png''), (''content-length'', ''42'')]
              (Inr [])) = JNum 42"
  "content_length (ex_response st [(''content-type'', ''image/png'')] b) = JNull"
  "content_length (ex_response 200 [(''content-length'', ''0'')] b) = JNum 0"
  "content_length (ex_response 200 [(''content-length'', ''abc'')] b) = JNaN"
  "content_length (ex_response 200 [(''content-length'', ''9007199254740993'')] b)
     = JNum 9007199254740992"
  "content_length (ex_response 200 [(''content-length'', CHR ''1'' # replicate 309 (CHR ''0''))] b)
     = JInfinity"
  by (simp_all add: content_length_def headers_get_def ex_response_sel ex_parseInt10)

theorem probe_size_witness:
  "size' (fst (probeResource ex_env ''https://example.com/a.png'' [])) = JNum 42
   \<and> snd (probeResource ex_env ''https://example.com/a.png'' [])
       = [Fetch HEAD ''https://example.com/a.png'' 20000]
   \<and> size' (fst (probeResource ex_env ''https://example.com/nohead.png'' [])) = JNum 10
   \<and> snd (probeResource ex_env ''https://example.com/nohead.png'' [])
       = [Fetch HEAD ''https://example.com/nohead.png'' 20000,
          Fetch GET ''https://example.com/nohead.png'' 20000,
          ReadBody ''https://example.com/nohead.png'']
   \<and> size' (fst (probeResource ex_env ''https://example.com/plain.png'' [])) = JNull
   \<and> snd (probeResource ex_env ''https://example.com/plain.png'' [])
       = [Fetch HEAD ''https://example.com/plain.png'' 20000]
   \<and> size' (fst (probeResource ex_env ''https://example.com/odd.png'' [])) = JNaN
   \<and> json_number (size' (fst (probeResource ex_env ''https://example.com/odd.png'' []))) = None
   \<and> size' (fst (probeResource ex_env ''https://example.com/down.png'' [])) = JNull"
  using probe_size [of ex_env "''https://example.com/a.png''" "[]"]
    probe_size [of ex_env "''https://example.com/nohead.png''" "[]"]
    probe_size [of ex_env "''https://example.com/plain.png''" "[]"]
    probe_size [of ex_env "''https://example.com/odd.png''" "[]"]
    probe_size [of ex_env "''https://example.com/down.png''" "[]"]
  by (simp add: ex_final_response ex_content_length ex_response_sel TIMEOUT_def
      json_number_def)

text \<open>
  C5 as stated fails in four places. After a GET whose response has no content-length
  and whose body cannot be read, size stays null although the final method is GET. A
  content-length of 0 on a GET response is not kept: the body is read and size is its
  byte length. A content-length above \<open>2^53\<close> is rounded. A content-length of \<open>2^1024\<close>
  or more gives Infinity, which the JSON report writes as null.
\<close>

theorem size_not_the_header:
  "final_response ex_env ''https://example.com/cut.png'' [] =
     Some (GET, \<lparr>r_status = 200, r_ok = True, r_headers = [(''content-type'', ''image/png'')],
                 r_body = Inl \<lparr>message = ''terminated'',
                                as_string = ''TypeError: terminated''\<rparr>\<rparr>)
   \<and> size' (fst (probeResource ex_env ''https://example.com/cut.png'' [])) = JNull
   \<and> final_response ex_env ''https://example.com/zero.png'' [] =
     Some (GET, \<lparr>r_status = 200, r_ok = True, r_headers = [(''content-length'', ''0'')],
                 r_body = Inr ''0123456789''\<rparr>)
   \<and> size' (fst (probeResource ex_env ''https://example.com/zero.png'' [])) = JNum 10
   \<and> final_response ex_env ''https://example.com/big.png'' [] =
     Some (HEAD, \<lparr>r_status = 200, r_ok = True,
                  r_headers = [(''content-length'', ''9007199254740993'')],
                  r_body = Inr []\<rparr>)
   \<and> size' (fst (probeResource ex_env ''https://example.com/big.png'' []))
       = JNum 9007199254740992
   \<and> final_response ex_env ''https://example.com/huge.png'' [] =
     Some (HEAD, \<lparr>r_status = 200, r_ok = True,
                  r_headers = [(''content-length'', CHR ''1'' # replicate 309 (CHR ''0''))],
                  r_body = Inr []\<rparr>)
   \<and> size' (fst (probeResource ex_env ''https://example.com/huge.png'' [])) = JInfinity
   \<and> json_number (size' (fst (probeResource ex_env ''https://example.com/huge.png'' [])))
       = None"
proof -
  have "size' (fst (probeResource ex_env ''https://example.com/cut.png'' [])) = JNull"
    by (simp add: size_after_response [OF ex_final_response(4)] ex_content_length ex_response_sel
        size_falsy_or_nan_def)
  moreover have "size' (fst (probeResource ex_env ''https://example.com/zero.png'' [])) = JNum 10"
    by (simp add: size_after_response [OF ex_final_response(5)] ex_content_length ex_response_sel
        size_falsy_or_nan_def)
  moreover have "size' (fst (probeResource ex_env ''https://example.com/big.png'' []))
       = JNum 9007199254740992"
    by (simp add: size_after_response [OF ex_final_response(7)] ex_content_length)
  moreover have "size' (fst (probeResource ex_env ''https://example.com/huge.png'' [])) = JInfinity"
    by (simp add: size_after_response [OF ex_final_response(8)] ex_content_length)
  moreover have "ex_response 200 hs b
      = \<lparr>r_status = 200, r_ok = True, r_headers = hs, r_body = b\<rparr>" for hs b
    by (simp add: ex_response_def)
  ultimately show ?thesis
    by (simp add: ex_final_response json_number_def)
qed





subsection \<open>The candidate map\<close>

lemma map_has_iff: "map_has m k = (k \<in> fst ` set m)"
  by (auto simp: map_has_def list_ex_iff)

lemma pushUrl_new:
  "u \<noteq> [] \<Longrightarrow> \<not> isBlockedUrl env u \<Longrightarrow> \<not> map_has m u \<Longrightarrow>
     pushUrl env m (Some u) ini = m @ [(u, mk_item u ini)]"
  by (simp add: pushUrl_def map_set_def)

lemma pushUrl_cases:
  "pushUrl env m v ini = m
   \<or> (\<exists>u. v = Some u \<and> u \<noteq> [] \<and> \<not> isBlockedUrl env u \<and> \<not> map_has m u
          \<and> pushUrl env m v ini = m @ [(u, mk_item u ini)])"
  by (auto simp: pushUrl_def map_set_def split: option.split)

text \<open>
  C9. Pushing a URL that the candidate map already holds, with any initiator, returns the
  same map: the entry keeps the initiator it was first seen with and the map has as many
  entries as before. The style sheet crawl likewise leaves \<open>toProbe\<close> as it is for a URL
  it already lists.
\<close>

theorem pushUrl_present:
  "(map_has m u \<longrightarrow>
      pushUrl env m (Some u) ini = m
      \<and> map_of (pushUrl env m (Some u) ini) u = map_of m u
      \<and> length (pushUrl env m (Some u) ini) = length m)
   \<and> (list_ex (\<lambda>x. i_url x = u) toProbe \<longrightarrow> add_extra [u] toProbe = toProbe)"
  by (simp add: pushUrl_def)

theorem pushUrl_present_witness:
  "map_has [(''https://example.com/b.css'', mk_item ''https://example.com/b.css'' Stylesheet)]
     ''https://example.com/b.css''
   \<and> pushUrl ex_env
        [(''https://example.com/b.css'', mk_item ''https://example.com/b.css'' Stylesheet)]
        (Some ''https://example.com/b.css'') Preload
       = [(''https://example.com/b.css'', mk_item ''https://example.com/b.css'' Stylesheet)]
   \<and> add_extra [''https://example.com/b.css'']
         [mk_item ''https://example.com/b.css'' Stylesheet]
       = [mk_item ''https://example.com/b.css'' Stylesheet]"
  using pushUrl_present [of
      "[(''https://example.com/b.css'', mk_item ''https://example.com/b.css'' Stylesheet)]"
      "''https://example.com/b.css''" ex_env Preload
      "[mk_item ''https://example.com/b.css'' Stylesheet]"]
  by (simp add: map_has_def mk_item_def)

subsection \<open>The cap on the candidates\<close>

lemma build_toProbe_take:
  "build_toProbe m tp =
     tp @ map (\<lambda>(u, meta). mk_item u (i_initiator meta)) (take (MAX_RESOURCES - length tp) m)"
proof (induction m arbitrary: tp)
  case Nil
  show ?case by simp
next
  case (Cons p m)
  obtain u meta where p: "p = (u, meta)" by (cases p)
  show ?case
  proof (cases "length tp \<ge> MAX_RESOURCES")
    case True
    then show ?thesis by (simp add: p)
  next
    case False
    then have "MAX_RESOURCES - length tp = Suc (MAX_RESOURCES - Suc (length tp))" by simp
    with False show ?thesis by (simp add: p Cons.IH)
  qed
qed

lemma add_extra_le:
  "length tp \<le> MAX_RESOURCES \<Longrightarrow> length (add_extra us tp) \<le> MAX_RESOURCES"
  by (induction us arbitrary: tp) auto

lemma add_extra_full:
  "MAX_RESOURCES \<le> length tp \<Longrightarrow> add_extra us tp = tp"
  by (cases us) auto

lemma crawl_le:
  "length tp \<le> MAX_RESOURCES \<Longrightarrow> length (fst (crawl env links tp log)) \<le> MAX_RESOURCES"
proof (induction links arbitrary: tp log)
  case Nil
  then show ?case by simp
next
  case (Cons l links)
  then show ?case
    by (auto simp: Let_def add_extra_le fetchWithTimeout_def split: sum.split)
qed

lemma crawl_full:
  "MAX_RESOURCES \<le> length tp \<Longrightarrow> crawl env links tp log = (tp, log)"
  by (cases links) auto

lemma candidates_le:
  "length (fst (candidates env target html log)) \<le> MAX_RESOURCES"
  by (simp add: candidates_def Let_def crawl_le build_toProbe_take)

lemma report_resources_le:
  "length (resources (make_report target probes results)) \<le> MAX_RESOURCES"
  by (simp add: make_report_def slice_def)

subsection \<open>Where the filter is applied\<close>

lemma foldl_invariant:
  assumes "P a" and "\<And>a x. P a \<Longrightarrow> P (f a x)"
  shows "P (foldl f a xs)"
  using assms(1) by (induction xs arbitrary: a) (simp_all add: assms(2))

lemma pushUrl_unblocked:
  assumes "unblocked_map env m" and "ini \<noteq> CssUrl" and "ini \<noteq> Document"
  shows "unblocked_map env (pushUrl env m v ini)"
  using pushUrl_cases [of env m v ini] assms
  by (auto simp: unblocked_map_def mk_item_def)

lemma push_css_unblocked:
  assumes "unblocked_map env m" and "ini \<noteq> CssUrl" and "ini \<noteq> Document"
  shows "unblocked_map env (push_css env target ini m css)"
  unfolding push_css_def
  by (rule foldl_invariant [where P = "unblocked_map env"])
     (simp_all add: assms pushUrl_unblocked)

lemma img_each_unblocked:
  assumes "unblocked_map env m"
  shows "unblocked_map env (img_each env target m el)"
proof -
  let ?r1 = "pushUrl env m
               (absoluteUrl env target (js_or (attr el ''src'') (attr el ''data-src''))) Img"
  have r1: "unblocked_map env ?r1" by (simp add: assms pushUrl_unblocked)
  have "unblocked_map env
          (foldl (\<lambda>r part.
                    pushUrl env r (absoluteUrl env target (Some (first_token (trim part))))
                      ImgSrcset) ?r1 parts)" for parts
    by (rule foldl_invariant [where P = "unblocked_map env"])
       (simp_all add: r1 pushUrl_unblocked)
  with r1 show ?thesis
    by (simp add: img_each_def Let_def split: option.split)
qed

lemma discover_unblocked: "unblocked_map env (discover env target pg)"
proof -
  note inv = foldl_invariant [where P = "unblocked_map env"]
  have r0: "unblocked_map env []" by (simp add: unblocked_map_def)
  show ?thesis
    unfolding discover_def Let_def
    by (intro inv r0 pushUrl_unblocked push_css_unblocked img_each_unblocked) simp_all
qed

lemma build_toProbe_unblocked:
  assumes "unblocked_map env m"
  shows "list_all (\<lambda>it. \<not> isBlockedUrl env (i_url it) \<and> i_initiator it \<noteq> CssUrl)
           (build_toProbe m [])"
  using assms
  by (auto simp: build_toProbe_take unblocked_map_def list_all_iff mk_item_def
      dest!: in_set_takeD)

lemma add_extra_old:
  assumes "list_all (\<lambda>it. i_initiator it = CssUrl \<or> P it) tp"
  shows "list_all (\<lambda>it. i_initiator it = CssUrl \<or> P it) (add_extra us tp)"
  using assms by (induction us arbitrary: tp) (auto simp: mk_item_def)

lemma crawl_old:
  assumes "list_all (\<lambda>it. i_initiator it = CssUrl \<or> P it) tp"
  shows "list_all (\<lambda>it. i_initiator it = CssUrl \<or> P it) (fst (crawl env links tp log))"
  using assms
proof (induction links arbitrary: tp log)
  case Nil
  then show ?case by simp
next
  case (Cons l links)
  then show ?case
    by (auto simp: Let_def fetchWithTimeout_def add_extra_old split: sum.split)
qed

lemma crawl_log:
  "\<exists>t. snd (crawl env links tp log) = log @ t \<and> list_all (crawl_event env) t"
proof (induction links arbitrary: tp log)
  case Nil
  show ?case by simp
next
  case (Cons l links)
  show ?case
  proof (cases "\<not> truthy l \<or> MAX_RESOURCES \<le> length tp \<or> isBlockedUrl env (or_empty l)")
    case True
    then show ?thesis using Cons.IH [of tp log] by auto
  next
    case False
    let ?u = "or_empty l"
    let ?l1 = "log @ [Fetch GET ?u CSS_FETCH_TIMEOUT]"
    have ev: "crawl_event env (Fetch GET ?u CSS_FETCH_TIMEOUT)" "crawl_event env (ReadBody ?u)"
      using False by (simp_all add: crawl_event_def)
    have a: "\<exists>t. snd (crawl env links tp' ?l1) = log @ t \<and> list_all (crawl_event env) t" for tp'
      using Cons.IH [of tp' ?l1] ev by auto
    have b: "\<exists>t. snd (crawl env links tp' (?l1 @ [ReadBody ?u])) = log @ t
                 \<and> list_all (crawl_event env) t" for tp'
      using Cons.IH [of tp' "?l1 @ [ReadBody ?u]"] ev by auto
    from False a b show ?thesis
      by (simp add: Let_def fetchWithTimeout_def split: sum.split)
  qed
qed

lemma candidates_log:
  "\<exists>t. snd (candidates env target html log) = log @ t \<and> list_all (crawl_event env) t"
  by (simp add: candidates_def Let_def crawl_log)

text \<open>
  Every candidate that discovery found in the HTML passed the filter, and so did every
  style sheet the crawl fetched; only the candidates with initiator \<open>css-url\<close> were
  never shown to it.
\<close>

lemma candidates_unblocked:
  "list_all (\<lambda>it. i_initiator it = CssUrl \<or> \<not> isBlockedUrl env (i_url it))
     (fst (candidates env target html log))"
proof -
  have "list_all (\<lambda>it. i_initiator it = CssUrl \<or> \<not> isBlockedUrl env (i_url it))
          (build_toProbe (discover env target (load env html)) [])"
    using build_toProbe_unblocked [OF discover_unblocked, of env target "load env html"]
    by (auto simp: list_all_iff)
  then show ?thesis
    unfolding candidates_def Let_def by (rule crawl_old)
qed

subsection \<open>No candidate is probed twice\<close>

lemma pushUrl_distinct:
  "distinct (map fst m) \<Longrightarrow> distinct (map fst (pushUrl env m v ini))"
  using pushUrl_cases [of env m v ini] by (auto simp: map_has_iff)

lemma push_css_distinct:
  "distinct (map fst m) \<Longrightarrow> distinct (map fst (push_css env target ini m css))"
  unfolding push_css_def
  by (rule foldl_invariant [where P = "\<lambda>m. distinct (map fst m)"])
     (simp_all add: pushUrl_distinct)

lemma img_each_distinct:
  assumes "distinct (map fst m)"
  shows "distinct (map fst (img_each env target m el))"
proof -
  let ?r1 = "pushUrl env m
               (absoluteUrl env target (js_or (attr el ''src'') (attr el ''data-src''))) Img"
  have r1: "distinct (map fst ?r1)" by (simp add: assms pushUrl_distinct)
  have "distinct (map fst
          (foldl (\<lambda>r part.
                    pushUrl env r (absoluteUrl env target (Some (first_token (trim part))))
                      ImgSrcset) ?r1 parts))" for parts
    by (rule foldl_invariant [where P = "\<lambda>m. distinct (map fst m)"])
       (simp_all add: r1 pushUrl_distinct)
  with r1 show ?thesis
    by (simp add: img_each_def Let_def split: option.split)
qed

lemma discover_distinct: "distinct (map fst (discover env target pg))"
proof -
  note inv = foldl_invariant [where P = "\<lambda>m. distinct (map fst m)"]
  show ?thesis
    unfolding discover_def Let_def
    by (intro inv pushUrl_distinct push_css_distinct img_each_distinct) simp_all
qed

lemma build_toProbe_urls:
  "map i_url (build_toProbe m []) = map fst (take MAX_RESOURCES m)"
  by (simp add: build_toProbe_take mk_item_def case_prod_unfold)

lemma add_extra_distinct:
  "distinct (map i_url tp) \<Longrightarrow> distinct (map i_url (add_extra us tp))"
proof (induction us arbitrary: tp)
  case Nil
  then show ?case by simp
next
  case (Cons u us)
  show ?case
  proof (cases "MAX_RESOURCES \<le> length tp \<or> list_ex (\<lambda>x. i_url x = u) tp")
    case True
    then show ?thesis using Cons by auto
  next
    case False
    then have "distinct (map i_url (tp @ [mk_item u CssUrl]))"
      using Cons.prems by (auto simp: mk_item_def list_ex_iff)
    then have "distinct (map i_url (add_extra us (tp @ [mk_item u CssUrl])))"
      by (rule Cons.IH)
    with False show ?thesis by simp
  qed
qed

lemma crawl_distinct:
  "distinct (map i_url tp) \<Longrightarrow> distinct (map i_url (fst (crawl env links tp log)))"
proof (induction links arbitrary: tp log)
  case Nil
  then show ?case by simp
next
  case (Cons l links)
  then show ?case
    by (auto simp: Let_def fetchWithTimeout_def add_extra_distinct split: sum.split)
qed

text \<open>
  The URLs of \<open>probes\<close> are pairwise different, so the probing loop probes no URL
  twice in one inspection.
\<close>

lemma probes_distinct:
  "distinct (map i_url
     (make_probes target pageResp mainTime (fst (candidates env target html log))))"
proof -
  have "distinct (map i_url (build_toProbe (discover env target (load env html)) []))"
    using discover_distinct [of env target "load env html"]
    by (simp add: build_toProbe_urls distinct_take flip: take_map)
  then have d: "distinct (map i_url (fst (candidates env target html log)))"
    unfolding candidates_def Let_def by (rule crawl_distinct)
  let ?xs = "fst (candidates env target html log)"
  have m: "map i_url (take MAX_RESOURCES (filter (\<lambda>t. i_url t \<noteq> target) ?xs))
             = take MAX_RESOURCES (filter (\<lambda>u. u \<noteq> target) (map i_url ?xs))"
    by (simp add: take_map filter_map comp_def)
  have "distinct (take MAX_RESOURCES (filter (\<lambda>u. u \<noteq> target) (map i_url ?xs)))"
    using d by (intro distinct_take distinct_filter)
  moreover have "target \<notin> set (take MAX_RESOURCES (filter (\<lambda>u. u \<noteq> target) (map i_url ?xs)))"
    by (auto dest: in_set_takeD)
  ultimately show ?thesis
    by (simp add: make_probes_def slice_def m)
qed

subsection \<open>The handler\<close>

lemma inspect_Status200:
  assumes "trim (or_empty body) = target" and "target \<noteq> []"
    and "\<not> isBlockedUrl env target"
    and "net env log GET target TIMEOUT = Inr pageResp" and "r_body pageResp = Inr html"
  shows "inspect env body log =
     (let log2 = log @ [Fetch GET target TIMEOUT, ReadBody target];
          cand = candidates env target html log2;
          probes = make_probes target pageResp (now env log2 - now env log) (fst cand);
          pr = probe_loop env probes 0 [] (snd cand)
      in (Status200 (make_report target probes (fst pr)), snd pr))"
  using assms
  by (simp add: inspect_def Let_def fetchWithTimeout_def split: prod.split)

lemma inspect_report:
  assumes "reply_report (fst (inspect env body log)) = Some rep"
  shows "\<exists>pageResp html.
           trim (or_empty body) \<noteq> [] \<and> \<not> isBlockedUrl env (trim (or_empty body))
           \<and> net env log GET (trim (or_empty body)) TIMEOUT = Inr pageResp
           \<and> r_body pageResp = Inr html"
  using assms
  by (auto simp: inspect_def Let_def fetchWithTimeout_def reply_report_def
      split: if_splits sum.splits prod.splits)

text \<open>
  C3, as the code has it. The list of candidates handed to the probes, \<open>toProbe\<close>, never
  has more than MAX_RESOURCES = 200 entries: it starts as the first 200 entries of the
  map that discovery filled, the style sheet crawl adds nothing and fetches nothing once
  it has 200 entries, and the \<open>resources\<close> array of a report has at most 200 entries.
\<close>

theorem toProbe_capped:
  "length (fst (candidates env target html log)) \<le> MAX_RESOURCES
   \<and> build_toProbe m [] = map (\<lambda>(u, meta). mk_item u (i_initiator meta)) (take MAX_RESOURCES m)
   \<and> (MAX_RESOURCES \<le> length toProbe \<longrightarrow>
        add_extra us toProbe = toProbe \<and> crawl env links toProbe log = (toProbe, log))
   \<and> (reply_report (fst (inspect env body log)) = Some rep \<longrightarrow>
        length (resources rep) \<le> MAX_RESOURCES)"
proof -
  have "length (resources rep) \<le> MAX_RESOURCES"
    if r: "reply_report (fst (inspect env body log)) = Some rep"
  proof -
    from inspect_report [OF r] obtain pageResp html where
      h: "trim (or_empty body) \<noteq> []" "\<not> isBlockedUrl env (trim (or_empty body))"
         "net env log GET (trim (or_empty body)) TIMEOUT = Inr pageResp"
         "r_body pageResp = Inr html"
      by blast
    from r show ?thesis
      by (auto simp: inspect_Status200 [OF refl h] Let_def reply_report_def
          report_resources_le)
  qed
  then show ?thesis
    by (simp add: candidates_le build_toProbe_take add_extra_full crawl_full)
qed

subsection \<open>The example platform at work\<close>

lemma ex_blocked:
  "isBlockedUrl ex_env ''http://127.0.0.1/admin''"
  "\<not> isBlockedUrl ex_env ''https://example.com/page''"
  "\<not> isBlockedUrl ex_env ''https://example.com/page1''"
  "\<not> isBlockedUrl ex_env ''https://example.com/page2''"
  "\<not> isBlockedUrl ex_env ''https://example.com/page3''"
  by code_simp+

lemma ex_net_pages:
  "net ex_env log GET ''https://example.com/page'' t
     = Inr (ex_response 200 [(''content-type'', ''text/html'')] (Inr ex_html_css))"
  "net ex_env log GET ''https://example.com/page1'' t
     = Inr (ex_response 200 [(''content-type'', ''text/html'')] (Inr ex_html_one_link))"
  "net ex_env log GET ''https://example.com/page2'' t
     = Inr (ex_response 200 [(''content-type'', ''text/html'')] (Inr ex_html_two_links))"
  "net ex_env log GET ''https://example.com/page3'' t
     = Inr (ex_response 200 [(''content-type'', ''text/html'')] (Inr ex_html_img))"
  by (simp_all add: ex_env_def ex_net_def)

lemma ex_trim:
  "trim (or_empty (Some ''https://example.com/page'')) = ''https://example.com/page''"
  "trim (or_empty (Some ''https://example.com/page1'')) = ''https://example.com/page1''"
  "trim (or_empty (Some ''https://example.com/page2'')) = ''https://example.com/page2''"
  "trim (or_empty (Some ''https://example.com/page3'')) = ''https://example.com/page3''"
  by code_simp+

lemma ex_candidates_page:
  "candidates ex_env ''https://example.com/page'' ex_html_css
     [Fetch GET ''https://example.com/page'' 20000, ReadBody ''https://example.com/page'']
   = ([mk_item ''https://example.com/b.css'' Stylesheet,
       mk_item ''http://127.0.0.1/admin'' CssUrl],
      [Fetch GET ''https://example.com/page'' 20000, ReadBody ''https://example.com/page'',
       Fetch GET ''https://example.com/b.css'' 8000, ReadBody ''https://example.com/b.css''])"
  by code_simp

lemma ex_candidates_page1:
  "candidates ex_env ''https://example.com/page1'' ex_html_one_link
     [Fetch GET ''https://example.com/page1'' 20000, ReadBody ''https://example.com/page1'']
   = ([mk_item ''https://example.com/c.css'' Stylesheet,
       mk_item ''https://example.com/d.png'' CssUrl],
      [Fetch GET ''https://example.com/page1'' 20000, ReadBody ''https://example.com/page1'',
       Fetch GET ''https://example.com/c.css'' 8000, ReadBody ''https://example.com/c.css''])"
  by code_simp

lemma ex_candidates_page2:
  "candidates ex_env ''https://example.com/page2'' ex_html_two_links
     [Fetch GET ''https://example.com/page2'' 20000, ReadBody ''https://example.com/page2'']
   = ([mk_item ''https://example.com/c.css'' Stylesheet],
      [Fetch GET ''https://example.com/page2'' 20000, ReadBody ''https://example.com/page2''])"
  by code_simp

lemma ex_candidates_page3:
  "candidates ex_env ''https://example.com/page3'' ex_html_img
     [Fetch GET ''https://example.com/page3'' 20000, ReadBody ''https://example.com/page3'']
   = ([mk_item ''https://example.com/a.png'' Img, mk_item ''https://example.com/page3'' Img],
      [Fetch GET ''https://example.com/page3'' 20000, ReadBody ''https://example.com/page3''])"
  by code_simp

lemma make_probes_Cons:
  "make_probes target pageResp mainTime toProbe =
     \<lparr>i_url = target, i_initiator = Document,
       mainStatus = Some \<lparr>ms_status = r_status pageResp, ms_ok = r_ok pageResp,
                           ms_contentType = headers_get pageResp ''content-type''\<rparr>,
       mainTimeMs = Some mainTime\<rparr>
     # take MAX_RESOURCES (filter (\<lambda>t. i_url t \<noteq> target) toProbe)"
  by (simp add: make_probes_def slice_def)

lemma report_urls_inspect:
  assumes "trim (or_empty body) = target" and "target \<noteq> []"
    and "\<not> isBlockedUrl env target"
    and "net env log GET target TIMEOUT = Inr pageResp" and "r_body pageResp = Inr html"
    and "candidates env target html (log @ [Fetch GET target TIMEOUT, ReadBody target])
           = (toProbe, log3)"
  shows "report_urls (fst (inspect env body log)) =
           take MAX_RESOURCES
             (target # map i_url (take MAX_RESOURCES (filter (\<lambda>t. i_url t \<noteq> target) toProbe)))"
    and "snd (inspect env body log) =
           snd (probe_loop env
                  (make_probes target pageResp
                     (now env (log @ [Fetch GET target TIMEOUT, ReadBody target]) - now env log)
                     toProbe) 0 [] log3)"
proof -
  let ?probes = "make_probes target pageResp
                   (now env (log @ [Fetch GET target TIMEOUT, ReadBody target]) - now env log)
                   toProbe"
  have i: "inspect env body log =
      (Status200 (make_report target ?probes (fst (probe_loop env ?probes 0 [] log3))),
       snd (probe_loop env ?probes 0 [] log3))"
    by (simp add: inspect_Status200 [OF assms(1-5)] assms(6) Let_def)
  have "map url (fst (probe_loop env ?probes 0 [] log3)) = map i_url ?probes"
    by (rule probe_loop_results)
  then show "report_urls (fst (inspect env body log)) =
           take MAX_RESOURCES
             (target # map i_url (take MAX_RESOURCES (filter (\<lambda>t. i_url t \<noteq> target) toProbe)))"
    by (simp add: i report_urls_def make_report_def slice_def make_probes_Cons
        flip: take_map)
  show "snd (inspect env body log) = snd (probe_loop env ?probes 0 [] log3)"
    by (simp add: i)
qed

text \<open>
  C2, as the code has it. In every report the first entry of \<open>resources\<close> is the probe
  result for the main URL, with initiator \<open>document\<close>: the main document is probed again
  by a HEAD request after the initial GET, the reading of its body and the events of
  the style sheet crawl. No later entry of \<open>resources\<close> has the
  main URL, also when it was discovered as a candidate. The \<open>main\<close> field is read from
  the response to the initial GET request.
\<close>

theorem main_probed_first:
  assumes "reply_report (fst (inspect env body log)) = Some rep"
  shows "\<exists>r rs pageResp mid tl.
           resources rep = r # rs
           \<and> fetchedUrl rep = trim (or_empty body)
           \<and> url r = fetchedUrl rep \<and> initiator r = Some Document
           \<and> list_all (\<lambda>x. url x \<noteq> fetchedUrl rep) rs
           \<and> snd (inspect env body log) =
               log @ [Fetch GET (fetchedUrl rep) TIMEOUT, ReadBody (fetchedUrl rep)] @ mid
                 @ Fetch HEAD (fetchedUrl rep) TIMEOUT # tl
           \<and> list_all (crawl_event env) mid
           \<and> net env log GET (fetchedUrl rep) TIMEOUT = Inr pageResp
           \<and> main rep =
               Some \<lparr>m_status = r_status pageResp, m_ok = r_ok pageResp,
                      m_contentType = headers_get pageResp ''content-type'',
                      m_timeMs = Some (now env (log @ [Fetch GET (fetchedUrl rep) TIMEOUT,
                                                         ReadBody (fetchedUrl rep)])
                                       - now env log)\<rparr>"
proof -
  let ?t = "trim (or_empty body)"
  from inspect_report [OF assms] obtain pageResp html where
    h: "?t \<noteq> []" "\<not> isBlockedUrl env ?t" "net env log GET ?t TIMEOUT = Inr pageResp"
       "r_body pageResp = Inr html"
    by blast
  let ?log2 = "log @ [Fetch GET ?t TIMEOUT, ReadBody ?t]"
  obtain toProbe log3 where c: "candidates env ?t html ?log2 = (toProbe, log3)"
    by (cases "candidates env ?t html ?log2")
  let ?main = "\<lparr>i_url = ?t, i_initiator = Document,
       mainStatus = Some \<lparr>ms_status = r_status pageResp, ms_ok = r_ok pageResp,
                           ms_contentType = headers_get pageResp ''content-type''\<rparr>,
       mainTimeMs = Some (now env ?log2 - now env log)\<rparr>"
  let ?rest = "take MAX_RESOURCES (filter (\<lambda>t. i_url t \<noteq> ?t) toProbe)"
  let ?res = "fst (probe_loop env (?main # ?rest) 0 [] log3)"
  have i: "inspect env body log =
      (Status200 (make_report ?t (?main # ?rest) ?res),
       snd (probe_loop env (?main # ?rest) 0 [] log3))"
    by (simp add: inspect_Status200 [OF refl h] c Let_def make_probes_Cons)
  then have rep: "rep = make_report ?t (?main # ?rest) ?res"
    using assms by (simp add: reply_report_def)
  have len: "length ?res = Suc (length ?rest)"
    by (simp only: probe_loop_results(1) list.size length_Cons)
  then obtain r rs where rr: "?res = r # rs" by (cases ?res) auto
  have urls: "map url ?res = ?t # map i_url ?rest"
    by (simp only: probe_loop_results(2) list.map item.simps)
  have inis: "map initiator ?res = Some Document # map (\<lambda>p. Some (i_initiator p)) ?rest"
    by (simp only: probe_loop_results(3) list.map item.simps)
  from urls rr have u: "url r = ?t" "map url rs = map i_url ?rest" by simp_all
  from inis rr have ini: "initiator r = Some Document" by simp
  have "\<forall>x \<in> set (map url rs). x \<noteq> ?t"
    unfolding u(2) using set_take_subset [of MAX_RESOURCES "filter (\<lambda>t. i_url t \<noteq> ?t) toProbe"]
    by auto
  then have rs: "list_all (\<lambda>x. url x \<noteq> ?t) rs" by (simp add: list_all_iff)
  have "resources rep = take MAX_RESOURCES ?res"
    by (simp add: rep make_report_def slice_def)
  also have "\<dots> = r # take (MAX_RESOURCES - 1) rs"
    unfolding rr by (simp add: MAX_RESOURCES_def)
  finally have res: "resources rep = r # take (MAX_RESOURCES - 1) rs" .
  have rs': "list_all (\<lambda>x. url x \<noteq> ?t) (take (MAX_RESOURCES - 1) rs)"
    using rs set_take_subset [of "MAX_RESOURCES - 1" rs] by (auto simp: list_all_iff)
  obtain mid where mid: "log3 = ?log2 @ mid" "list_all (crawl_event env) mid"
    using candidates_log [of env ?t html ?log2] by (auto simp: c)
  obtain t1 where "snd (probe_loop env (?main # ?rest) 0 [] log3)
                     = log3 @ Fetch HEAD ?t TIMEOUT # t1"
    using probe_loop_first_log [of env ?main ?rest log3] by auto
  then have lg: "snd (inspect env body log) =
      log @ [Fetch GET ?t TIMEOUT, ReadBody ?t] @ mid @ Fetch HEAD ?t TIMEOUT # t1"
    by (simp add: i mid(1))
  have f: "fetchedUrl rep = ?t" by (simp add: rep make_report_def)
  have m: "main rep = Some \<lparr>m_status = r_status pageResp, m_ok = r_ok pageResp,
                      m_contentType = headers_get pageResp ''content-type'',
                      m_timeMs = Some (now env ?log2 - now env log)\<rparr>"
    by (simp add: rep make_report_def)
  show ?thesis
    using res f u(1) ini rs' lg mid(2) h(3) m by (simp only:) blast
qed

lemma ex_head_final:
  assumes "i_url it = ''https://example.com/a.png'' \<or> i_url it = ''https://example.com/b.css''
     \<or> i_url it = ''https://example.com/c.css'' \<or> i_url it = ''https://example.com/d.png''
     \<or> i_url it = ''http://127.0.0.1/admin'' \<or> i_url it = ''https://example.com/page''
     \<or> i_url it = ''https://example.com/page1'' \<or> i_url it = ''https://example.com/page2''
     \<or> i_url it = ''https://example.com/page3''"
  shows "head_final ex_env it"
  using assms
  by (auto simp: head_final_def ex_env_def ex_net_def ex_usual_def ex_response_sel)

lemma ex_inspect_page:
  "report_urls (fst (inspect ex_env (Some ''https://example.com/page'') []))
     = [''https://example.com/page'',
        ''https://example.com/b.css'',
        ''http://127.0.0.1/admin'']"
  "snd (inspect ex_env (Some ''https://example.com/page'') [])
     = [Fetch GET ''https://example.com/page'' 20000,
        ReadBody ''https://example.com/page'',
        Fetch GET ''https://example.com/b.css'' 8000,
        ReadBody ''https://example.com/b.css'',
        Fetch HEAD ''https://example.com/page'' 20000,
        Fetch HEAD ''https://example.com/b.css'' 20000,
        Fetch HEAD ''http://127.0.0.1/admin'' 20000]"
proof -
  have c: "candidates ex_env ''https://example.com/page'' ex_html_css
     ([] @ [Fetch GET ''https://example.com/page'' TIMEOUT, ReadBody ''https://example.com/page''])
   = ([mk_item ''https://example.com/b.css'' Stylesheet,
       mk_item ''http://127.0.0.1/admin'' CssUrl],
      [Fetch GET ''https://example.com/page'' 20000,
       ReadBody ''https://example.com/page'',
       Fetch GET ''https://example.com/b.css'' 8000,
       ReadBody ''https://example.com/b.css''])"
    using ex_candidates_page by (simp add: TIMEOUT_def)
  note r = report_urls_inspect [OF ex_trim(1) _ ex_blocked(2) ex_net_pages(1) _ c]
  show "report_urls (fst (inspect ex_env (Some ''https://example.com/page'') []))
     = [''https://example.com/page'',
        ''https://example.com/b.css'',
        ''http://127.0.0.1/admin'']"
    by (subst r(1)) (simp_all add: ex_response_sel mk_item_def MAX_RESOURCES_def)
  show "snd (inspect ex_env (Some ''https://example.com/page'') [])
     = [Fetch GET ''https://example.com/page'' 20000,
        ReadBody ''https://example.com/page'',
        Fetch GET ''https://example.com/b.css'' 8000,
        ReadBody ''https://example.com/b.css'',
        Fetch HEAD ''https://example.com/page'' 20000,
        Fetch HEAD ''https://example.com/b.css'' 20000,
        Fetch HEAD ''http://127.0.0.1/admin'' 20000]"
    by (subst r(2))
       (simp_all add: ex_response_sel mk_item_def MAX_RESOURCES_def make_probes_Cons
          probe_loop_heads ex_head_final batch_heads_def TIMEOUT_def)
qed

lemma ex_inspect_page1:
  "report_urls (fst (inspect ex_env (Some ''https://example.com/page1'') []))
     = [''https://example.com/page1'',
        ''https://example.com/c.css'',
        ''https://example.com/d.png'']"
  "snd (inspect ex_env (Some ''https://example.com/page1'') [])
     = [Fetch GET ''https://example.com/page1'' 20000,
        ReadBody ''https://example.com/page1'',
        Fetch GET ''https://example.com/c.css'' 8000,
        ReadBody ''https://example.com/c.css'',
        Fetch HEAD ''https://example.com/page1'' 20000,
        Fetch HEAD ''https://example.com/c.css'' 20000,
        Fetch HEAD ''https://example.com/d.png'' 20000]"
proof -
  have c: "candidates ex_env ''https://example.com/page1'' ex_html_one_link
     ([] @ [Fetch GET ''https://example.com/page1'' TIMEOUT, ReadBody ''https://example.com/page1''])
   = ([mk_item ''https://example.com/c.css'' Stylesheet,
       mk_item ''https://example.com/d.png'' CssUrl],
      [Fetch GET ''https://example.com/page1'' 20000,
       ReadBody ''https://example.com/page1'',
       Fetch GET ''https://example.com/c.css'' 8000,
       ReadBody ''https://example.com/c.css''])"
    using ex_candidates_page1 by (simp add: TIMEOUT_def)
  note r = report_urls_inspect [OF ex_trim(2) _ ex_blocked(3) ex_net_pages(2) _ c]
  show "report_urls (fst (inspect ex_env (Some ''https://example.com/page1'') []))
     = [''https://example.com/page1'',
        ''https://example.com/c.css'',
        ''https://example.com/d.png'']"
    by (subst r(1)) (simp_all add: ex_response_sel mk_item_def MAX_RESOURCES_def)
  show "snd (inspect ex_env (Some ''https://example.com/page1'') [])
     = [Fetch GET ''https://example.com/page1'' 20000,
        ReadBody ''https://example.com/page1'',
        Fetch GET ''https://example.com/c.css'' 8000,
        ReadBody ''https://example.com/c.css'',
        Fetch HEAD ''https://example.com/page1'' 20000,
        Fetch HEAD ''https://example.com/c.css'' 20000,
        Fetch HEAD ''https://example.com/d.png'' 20000]"
    by (subst r(2))
       (simp_all add: ex_response_sel mk_item_def MAX_RESOURCES_def make_probes_Cons
          probe_loop_heads ex_head_final batch_heads_def TIMEOUT_def)
qed

lemma ex_inspect_page2:
  "report_urls (fst (inspect ex_env (Some ''https://example.com/page2'') []))
     = [''https://example.com/page2'',
        ''https://example.com/c.css'']"
  "snd (inspect ex_env (Some ''https://example.com/page2'') [])
     = [Fetch GET ''https://example.com/page2'' 20000,
        ReadBody ''https://example.com/page2'',
        Fetch HEAD ''https://example.com/page2'' 20000,
        Fetch HEAD ''https://example.com/c.css'' 20000]"
proof -
  have c: "candidates ex_env ''https://example.com/page2'' ex_html_two_links
     ([] @ [Fetch GET ''https://example.com/page2'' TIMEOUT, ReadBody ''https://example.com/page2''])
   = ([mk_item ''https://example.com/c.css'' Stylesheet],
      [Fetch GET ''https://example.com/page2'' 20000,
       ReadBody ''https://example.com/page2''])"
    using ex_candidates_page2 by (simp add: TIMEOUT_def)
  note r = report_urls_inspect [OF ex_trim(3) _ ex_blocked(4) ex_net_pages(3) _ c]
  show "report_urls (fst (inspect ex_env (Some ''https://example.com/page2'') []))
     = [''https://example.com/page2'',
        ''https://example.com/c.css'']"
    by (subst r(1)) (simp_all add: ex_response_sel mk_item_def MAX_RESOURCES_def)
  show "snd (inspect ex_env (Some ''https://example.com/page2'') [])
     = [Fetch GET ''https://example.com/page2'' 20000,
        ReadBody ''https://example.com/page2'',
        Fetch HEAD ''https://example.com/page2'' 20000,
        Fetch HEAD ''https://example.com/c.css'' 20000]"
    by (subst r(2))
       (simp_all add: ex_response_sel mk_item_def MAX_RESOURCES_def make_probes_Cons
          probe_loop_heads ex_head_final batch_heads_def TIMEOUT_def)
qed

lemma ex_inspect_page3:
  "report_urls (fst (inspect ex_env (Some ''https://example.com/page3'') []))
     = [''https://example.com/page3'',
        ''https://example.com/a.png'']"
  "snd (inspect ex_env (Some ''https://example.com/page3'') [])
     = [Fetch GET ''https://example.com/page3'' 20000,
        ReadBody ''https://example.com/page3'',
        Fetch HEAD ''https://example.com/page3'' 20000,
        Fetch HEAD ''https://example.com/a.png'' 20000]"
proof -
  have c: "candidates ex_env ''https://example.com/page3'' ex_html_img
     ([] @ [Fetch GET ''https://example.com/page3'' TIMEOUT, ReadBody ''https://example.com/page3''])
   = ([mk_item ''https://example.com/a.png'' Img,
       mk_item ''https://example.com/page3'' Img],
      [Fetch GET ''https://example.com/page3'' 20000,
       ReadBody ''https://example.com/page3''])"
    using ex_candidates_page3 by (simp add: TIMEOUT_def)
  note r = report_urls_inspect [OF ex_trim(4) _ ex_blocked(5) ex_net_pages(4) _ c]
  show "report_urls (fst (inspect ex_env (Some ''https://example.com/page3'') []))
     = [''https://example.com/page3'',
        ''https://example.com/a.png'']"
    by (subst r(1)) (simp_all add: ex_response_sel mk_item_def MAX_RESOURCES_def)
  show "snd (inspect ex_env (Some ''https://example.com/page3'') [])
     = [Fetch GET ''https://example.com/page3'' 20000,
        ReadBody ''https://example.com/page3'',
        Fetch HEAD ''https://example.com/page3'' 20000,
        Fetch HEAD ''https://example.com/a.png'' 20000]"
    by (subst r(2))
       (simp_all add: ex_response_sel mk_item_def MAX_RESOURCES_def make_probes_Cons
          probe_loop_heads ex_head_final batch_heads_def TIMEOUT_def)
qed

subsection \<open>A document with 201 scripts\<close>

lemma foldl_pushUrl_fresh:
  assumes "\<forall>u \<in> set us. u \<noteq> [] \<and> \<not> isBlockedUrl env u" and "distinct us"
    and "\<forall>u \<in> set us. \<not> map_has m u"
  shows "foldl (\<lambda>r u. pushUrl env r (Some u) ini) m us = m @ map (\<lambda>u. (u, mk_item u ini)) us"
  using assms
proof (induction us arbitrary: m)
  case Nil
  show ?case by simp
next
  case (Cons a us)
  have p: "pushUrl env m (Some a) ini = m @ [(a, mk_item a ini)]"
    using Cons.prems by (simp add: pushUrl_new)
  have "\<forall>u \<in> set us. \<not> map_has (m @ [(a, mk_item a ini)]) u"
    using Cons.prems by (auto simp: map_has_iff)
  then have "foldl (\<lambda>r u. pushUrl env r (Some u) ini) (m @ [(a, mk_item a ini)]) us
               = (m @ [(a, mk_item a ini)]) @ map (\<lambda>u. (u, mk_item u ini)) us"
    using Cons.prems by (intro Cons.IH) auto
  then show ?case by (simp add: p)
qed

lemma ex_letters:
  assumes "a \<in> set ''abcdefghijklmno''"
  shows "ex_path_char a" and "a \<noteq> CHR ''.''" and "a \<noteq> CHR ''/''"
  using assms by (auto simp: ex_path_char_def)

lemma ex_two_letters:
  assumes "a \<in> set ''abcdefghijklmno''" and "b \<in> set ''abcdefghijklmno''"
  shows "absoluteUrl ex_env ''https://example.com/page'' (Some [CHR ''/'', a, b])
           = Some (''https://example.com'' @ [CHR ''/'', a, b])"
    and "\<not> isBlockedUrl ex_env (''https://example.com'' @ [CHR ''/'', a, b])"
proof -
  have base: "ex_parse ''https://example.com/page''
      = Some \<lparr>protocol = ''https:'', hostname = ''example.com'',
               href = ''https://example.com/page''\<rparr>"
    by code_simp
  have host: "array_includes ex_hosts ''example.com''"
    by code_simp
  have p: "ex_parse (''https://example.com'' @ [CHR ''/'', a, b])
      = Some \<lparr>protocol = ''https:'', hostname = ''example.com'',
               href = ''https://example.com'' @ [CHR ''/'', a, b]\<rparr>"
    using ex_letters [OF assms(1)] ex_letters [OF assms(2)] host
    by (simp add: ex_parse_def ex_parse_rest_def startsWith_def ex_path_char_def)
  have np: "\<not> startsWith [CHR ''/'', a, b] ''https://''"
           "\<not> startsWith [CHR ''/'', a, b] ''http://''"
           "startsWith [CHR ''/'', a, b] ''/''"
           "\<not> startsWith [CHR ''/'', a, b] ''//''"
    using ex_letters [OF assms(1)] by (simp_all add: startsWith_def)
  show "absoluteUrl ex_env ''https://example.com/page'' (Some [CHR ''/'', a, b])
           = Some (''https://example.com'' @ [CHR ''/'', a, b])"
    using p by (simp add: absoluteUrl_def to_USVString_def ex_env_def ex_newURL_def base np)
  have "toLowerCase ''example.com'' = ''example.com''" by code_simp
  moreover have "\<not> endsWith ''example.com'' ''.local''" by code_simp
  moreover have "\<not> private_re_test ''example.com''" by code_simp
  moreover have "array_includes [''http:'', ''https:''] ''https:''" by code_simp
  ultimately show "\<not> isBlockedUrl ex_env (''https://example.com'' @ [CHR ''/'', a, b])"
    using p by (simp add: isBlockedUrl_def ex_env_def ex_newURL_def)
qed

lemma ex_many_srcs_product:
  "ex_many_srcs =
     take 201 (map (\<lambda>(a, b). [CHR ''/'', a, b])
                 (List.product ''abcdefghijklmno'' ''abcdefghijklmno''))"
  unfolding ex_many_srcs_def product_concat_map map_concat
  by (simp add: comp_def)

lemma ex_many_srcs_distinct: "distinct ex_many_srcs"
proof -
  have "distinct ''abcdefghijklmno''" by simp
  then have "distinct (List.product ''abcdefghijklmno'' ''abcdefghijklmno'')"
    by (rule distinct_product) fact
  moreover have "inj (\<lambda>(a, b). [CHR ''/'', a, b])"
    by (auto simp: inj_on_def)
  ultimately have "distinct (map (\<lambda>(a, b). [CHR ''/'', a, b])
                     (List.product ''abcdefghijklmno'' ''abcdefghijklmno''))"
    by (simp add: distinct_map inj_on_subset)
  then show ?thesis
    unfolding ex_many_srcs_product by (rule distinct_take)
qed

lemma ex_many_srcs_length: "length ex_many_srcs = 201"
  unfolding ex_many_srcs_product by simp

lemma product_shape:
  "s \<in> set (map (\<lambda>(a, b). [c, a, b]) (List.product xs ys)) \<Longrightarrow>
     \<exists>a \<in> set xs. \<exists>b \<in> set ys. s = [c, a, b]"
  by auto

lemma ex_many_srcs_shape:
  assumes "s \<in> set ex_many_srcs"
  shows "\<exists>a \<in> set ''abcdefghijklmno''. \<exists>b \<in> set ''abcdefghijklmno''. s = [CHR ''/'', a, b]"
proof -
  from assms have "s \<in> set (map (\<lambda>(a, b). [CHR ''/'', a, b])
                 (List.product ''abcdefghijklmno'' ''abcdefghijklmno''))"
    unfolding ex_many_srcs_product by (rule in_set_takeD)
  then show ?thesis by (rule product_shape)
qed

lemma ex_discover_many:
  "discover ex_env ''https://example.com/page'' ex_page_many =
     map (\<lambda>u. (u, mk_item u Script)) (map (\<lambda>s. ''https://example.com'' @ s) ex_many_srcs)"
proof -
  let ?abs = "\<lambda>s. ''https://example.com'' @ s"
  have res: "absoluteUrl ex_env ''https://example.com/page'' (Some s) = Some (?abs s)"
      and unb: "\<not> isBlockedUrl ex_env (?abs s)"
    if "s \<in> set ex_many_srcs" for s
    using ex_many_srcs_shape [OF that] ex_two_letters by blast+
  have "discover ex_env ''https://example.com/page'' ex_page_many =
      foldl (\<lambda>r s. pushUrl ex_env r (absoluteUrl ex_env ''https://example.com/page'' (Some s)) Script)
        [] ex_many_srcs"
    by (simp add: discover_def ex_page_many_def foldl_map attr_def ex_el_def)
  also have "\<dots> = foldl (\<lambda>r s. pushUrl ex_env r (Some (?abs s)) Script) [] ex_many_srcs"
    by (rule foldl_cong) (simp_all add: res)
  also have "\<dots> = foldl (\<lambda>r u. pushUrl ex_env r (Some u) Script) [] (map ?abs ex_many_srcs)"
    by (simp add: foldl_map)
  also have "\<dots> = [] @ map (\<lambda>u. (u, mk_item u Script)) (map ?abs ex_many_srcs)"
  proof (rule foldl_pushUrl_fresh)
    show "\<forall>u \<in> set (map ?abs ex_many_srcs). u \<noteq> [] \<and> \<not> isBlockedUrl ex_env u"
      using unb by auto
    show "distinct (map ?abs ex_many_srcs)"
      using ex_many_srcs_distinct by (simp add: distinct_map inj_on_def)
    show "\<forall>u \<in> set (map ?abs ex_many_srcs). \<not> map_has [] u"
      by (simp add: map_has_def)
  qed
  finally show ?thesis by simp
qed

text \<open>
  C3 as stated fails for the candidate map: a document with 201 \<open>script\<close> elements
  whose sources resolve to 201 different public URLs leaves 201 entries in the map; only
  the list cut from it has 200.
\<close>

theorem candidate_map_exceeds_cap:
  "length (discover ex_env ''https://example.com/page'' ex_page_many) = 201
   \<and> MAX_RESOURCES = 200
   \<and> length (build_toProbe (discover ex_env ''https://example.com/page'' ex_page_many) []) = 200"
  by (simp add: ex_discover_many ex_many_srcs_length build_toProbe_take MAX_RESOURCES_def)

subsection \<open>The report on the example platform\<close>

lemma ex_report_page3:
  "reply_report (fst (inspect ex_env (Some ''https://example.com/page3'') []))
     = Some (the (reply_report (fst (inspect ex_env (Some ''https://example.com/page3'') []))))"
proof -
  have "r_body (ex_response 200 [(''content-type'', ''text/html'')] (Inr ex_html_img))
          = Inr ex_html_img"
    by (simp add: ex_response_sel)
  from inspect_Status200 [OF ex_trim(4) _ ex_blocked(5) ex_net_pages(4) this]
  show ?thesis by (simp add: Let_def reply_report_def)
qed

text \<open>
  C2 as stated fails on a page with one image and the page's own URL as a second image
  source: the first entry of \<open>resources\<close> is the main URL, and the log shows the HEAD
  request that probed it after the initial GET.
\<close>

theorem main_document_is_probed:
  "report_urls (fst (inspect ex_env (Some ''https://example.com/page3'') []))
     = [''https://example.com/page3'', ''https://example.com/a.png'']
   \<and> snd (inspect ex_env (Some ''https://example.com/page3'') [])
     = [Fetch GET ''https://example.com/page3'' 20000, ReadBody ''https://example.com/page3'',
        Fetch HEAD ''https://example.com/page3'' 20000,
        Fetch HEAD ''https://example.com/a.png'' 20000]"
  using ex_inspect_page3 by simp

theorem main_probed_first_witness:
  "reply_report (fst (inspect ex_env (Some ''https://example.com/page3'') [])) \<noteq> None
   \<and> (\<exists>r rs.
         resources (the (reply_report (fst (inspect ex_env (Some ''https://example.com/page3'') []))))
           = r # rs
         \<and> url r = ''https://example.com/page3'' \<and> initiator r = Some Document
         \<and> list_all (\<lambda>x. url x \<noteq> ''https://example.com/page3'') rs)
   \<and> Fetch HEAD ''https://example.com/page3'' 20000
        \<in> set (snd (inspect ex_env (Some ''https://example.com/page3'') []))"
  using main_probed_first [OF ex_report_page3] ex_report_page3
  by (auto simp: ex_trim TIMEOUT_def)

theorem toProbe_capped_witness:
  "length (fst (candidates ex_env ''https://example.com/page3'' ex_html_img [])) \<le> 200
   \<and> build_toProbe [(''https://example.com/a.png'', mk_item ''https://example.com/a.png'' Img)] []
       = [mk_item ''https://example.com/a.png'' Img]
   \<and> 200 \<le> length (replicate 200 (mk_item ''https://example.com/a.png'' Img))
   \<and> add_extra [''https://example.com/d.png'']
         (replicate 200 (mk_item ''https://example.com/a.png'' Img))
       = replicate 200 (mk_item ''https://example.com/a.png'' Img)
   \<and> crawl ex_env [Some ''https://example.com/c.css'']
         (replicate 200 (mk_item ''https://example.com/a.png'' Img)) []
       = (replicate 200 (mk_item ''https://example.com/a.png'' Img), [])
   \<and> reply_report (fst (inspect ex_env (Some ''https://example.com/page3'') [])) \<noteq> None
   \<and> length (resources
         (the (reply_report (fst (inspect ex_env (Some ''https://example.com/page3'') [])))))
       \<le> 200"
  using toProbe_capped [of ex_env "''https://example.com/page3''" ex_html_img "[]"
      "[(''https://example.com/a.png'', mk_item ''https://example.com/a.png'' Img)]"
      "replicate 200 (mk_item ''https://example.com/a.png'' Img)"
      "[''https://example.com/d.png'']" "[Some ''https://example.com/c.css'']"
      "Some ''https://example.com/page3''"
      "the (reply_report (fst (inspect ex_env (Some ''https://example.com/page3'') [])))"]
    ex_report_page3
  by (auto simp: MAX_RESOURCES_def mk_item_def)

text \<open>
  C1 on the code. The page \<open>https://example.com/page\<close> links the style sheet \<open>/b.css\<close>,
  whose text is \<open>a{background:url(http://127.0.0.1/admin)}\<close>. isBlockedUrl blocks that
  URL, yet the crawl adds it to \<open>toProbe\<close> without asking, the report lists it, and a HEAD
  request is sent to it.
\<close>

theorem blocked_css_url_is_probed:
  "isBlockedUrl ex_env ''http://127.0.0.1/admin''
   \<and> report_urls (fst (inspect ex_env (Some ''https://example.com/page'') []))
     = [''https://example.com/page'', ''https://example.com/b.css'', ''http://127.0.0.1/admin'']
   \<and> snd (inspect ex_env (Some ''https://example.com/page'') [])
     = [Fetch GET ''https://example.com/page'' 20000, ReadBody ''https://example.com/page'',
        Fetch GET ''https://example.com/b.css'' 8000, ReadBody ''https://example.com/b.css'',
        Fetch HEAD ''https://example.com/page'' 20000,
        Fetch HEAD ''https://example.com/b.css'' 20000,
        Fetch HEAD ''http://127.0.0.1/admin'' 20000]"
  using ex_blocked(1) ex_inspect_page by simp

lemma ex_cssLinks:
  "absoluteUrl ex_env ''https://example.com/page2'' (Some ''http://['') = None"
  "cssLinks_of ex_env ''https://example.com/page2'' (load ex_env ex_html_two_links)
     = [None, Some ''https://example.com/c.css'']"
  "cssLinks_of ex_env ''https://example.com/page1'' (load ex_env ex_html_one_link)
     = [Some ''https://example.com/c.css'']"
  by code_simp+

text \<open>
  C10 on the code. The page \<open>https://example.com/page2\<close> has two style sheet links, the
  first with the unresolvable \<open>href\<close> \<open>http://[\<close>, the second \<open>/c.css\<close>, whose text is
  \<open>a{background:url(/d.png)}\<close>. The first entry of \<open>cssLinks\<close> is \<open>null\<close> and ends the crawl
  loop: \<open>/c.css\<close> is never fetched for its text and \<open>/d.png\<close> is not among the
  candidates. On the page \<open>https://example.com/page1\<close>, which has the second link
  alone, \<open>/c.css\<close> is fetched and \<open>/d.png\<close> is a candidate.
\<close>

theorem unresolvable_link_ends_crawl:
  "absoluteUrl ex_env ''https://example.com/page2'' (Some ''http://['') = None
   \<and> cssLinks_of ex_env ''https://example.com/page2'' (load ex_env ex_html_two_links)
       = [None, Some ''https://example.com/c.css'']
   \<and> report_urls (fst (inspect ex_env (Some ''https://example.com/page2'') []))
       = [''https://example.com/page2'', ''https://example.com/c.css'']
   \<and> snd (inspect ex_env (Some ''https://example.com/page2'') [])
       = [Fetch GET ''https://example.com/page2'' 20000, ReadBody ''https://example.com/page2'',
          Fetch HEAD ''https://example.com/page2'' 20000,
          Fetch HEAD ''https://example.com/c.css'' 20000]
   \<and> cssLinks_of ex_env ''https://example.com/page1'' (load ex_env ex_html_one_link)
       = [Some ''https://example.com/c.css'']
   \<and> report_urls (fst (inspect ex_env (Some ''https://example.com/page1'') []))
       = [''https://example.com/page1'', ''https://example.com/c.css'',
          ''https://example.com/d.png'']
   \<and> snd (inspect ex_env (Some ''https://example.com/page1'') [])
       = [Fetch GET ''https://example.com/page1'' 20000, ReadBody ''https://example.com/page1'',
          Fetch GET ''https://example.com/c.css'' 8000, ReadBody ''https://example.com/c.css'',
          Fetch HEAD ''https://example.com/page1'' 20000,
          Fetch HEAD ''https://example.com/c.css'' 20000,
          Fetch HEAD ''https://example.com/d.png'' 20000]"
  using ex_cssLinks ex_inspect_page2 ex_inspect_page1 by simp

end
